theory Spec2Isabelle
  imports Main "HOL-Library.Char_ord" "HOL-Library.List_Lexorder" "HOL-Library.AList"
    "HOL-Library.Multiset"
begin

section \<open>Strings\<close>

text \<open>
  A Python \<open>str\<close> is modelled as a \<open>string\<close> whose characters are code points below 256.
  \<open>str.lower\<close> and \<open>str.upper\<close> are modelled on the ASCII letters.
\<close>

definition lower_char :: "char \<Rightarrow> char" where
  "lower_char c =
     (if CHR ''A'' \<le> c \<and> c \<le> CHR ''Z'' then char_of (of_char c + (32::nat)) else c)"

definition upper_char :: "char \<Rightarrow> char" where
  "upper_char c =
     (if CHR ''a'' \<le> c \<and> c \<le> CHR ''z'' then char_of (of_char c - (32::nat)) else c)"

definition lower :: "string \<Rightarrow> string" where
  "lower s = map lower_char s"

definition upper :: "string \<Rightarrow> string" where
  "upper s = map upper_char s"

text \<open>\<open>s.rfind(c)\<close>: the last index of \<open>c\<close>, \<open>None\<close> for Python's \<open>-1\<close>.\<close>

fun rfind :: "char \<Rightarrow> string \<Rightarrow> nat option" where
  "rfind c [] = None"
| "rfind c (x # xs) =
     (case rfind c xs of
        Some i \<Rightarrow> Some (Suc i)
      | None \<Rightarrow> if x = c then Some 0 else None)"

text \<open>\<open>w in s\<close> on strings: \<open>w\<close> occurs in \<open>s\<close> as a contiguous substring.\<close>

fun py_in :: "string \<Rightarrow> string \<Rightarrow> bool" where
  "py_in w [] = (w = [])"
| "py_in w (c # cs) = (take (length w) (c # cs) = w \<or> py_in w cs)"

text \<open>\<open>s.split('/')\<close>\<close>

fun split_slash :: "string \<Rightarrow> string list" where
  "split_slash [] = [[]]"
| "split_slash (c # cs) =
     (if c = CHR ''/'' then [] # split_slash cs
      else (case split_slash cs of
              [] \<Rightarrow> [[c]]
            | w # ws \<Rightarrow> (c # w) # ws))"

text \<open>\<open>sep.join(xs)\<close>\<close>

fun py_join :: "string \<Rightarrow> string list \<Rightarrow> string" where
  "py_join sep [] = []"
| "py_join sep [x] = x"
| "py_join sep (x # y # ys) = x @ sep @ py_join sep (y # ys)"

section \<open>posixpath and pathlib\<close>

text \<open>\<open>os.path.basename\<close>: everything after the last slash.\<close>

definition basename :: "string \<Rightarrow> string" where
  "basename p = (case rfind CHR ''/'' p of None \<Rightarrow> p | Some i \<Rightarrow> drop (Suc i) p)"

text \<open>\<open>os.path.join\<close> of two components.\<close>

definition os_path_join :: "string \<Rightarrow> string \<Rightarrow> string" where
  "os_path_join a b =
     (if take 1 b = ''/'' then b
      else if a = [] \<or> last a = CHR ''/'' then a @ b
      else a @ ''/'' @ b)"

text \<open>
  A \<open>pathlib\<close> path on POSIX: the root (\<open>''''\<close>, \<open>''/''\<close> or \<open>''//''\<close>) and the
  components after it. \<open>splitroot\<close> is the root that \<open>posixpath.splitroot\<close> finds.
\<close>

record posix_path =
  pp_root :: string
  pp_parts :: "string list"

fun splitroot :: "string \<Rightarrow> string" where
  "splitroot (a # b # c # _) =
     (if a \<noteq> CHR ''/'' then [] else if b \<noteq> CHR ''/'' \<or> c = CHR ''/'' then ''/'' else ''//'')"
| "splitroot [a, b] =
     (if a \<noteq> CHR ''/'' then [] else if b \<noteq> CHR ''/'' then ''/'' else ''//'')"
| "splitroot [a] = (if a \<noteq> CHR ''/'' then [] else ''/'')"
| "splitroot [] = []"

text \<open>\<open>Path(s)\<close>: empty components and \<open>.\<close> components are dropped.\<close>

definition Path :: "string \<Rightarrow> posix_path" where
  "Path s = \<lparr>pp_root = splitroot s,
             pp_parts = filter (\<lambda>x. x \<noteq> [] \<and> x \<noteq> ''.'') (split_slash s)\<rparr>"

text \<open>\<open>str(p)\<close>\<close>

definition str_path :: "posix_path \<Rightarrow> string" where
  "str_path p =
     (if pp_root p = [] \<and> pp_parts p = [] then ''.''
      else pp_root p @ py_join ''/'' (pp_parts p))"

text \<open>\<open>p / key\<close>: the two are joined as strings and parsed again.\<close>

definition truediv :: "posix_path \<Rightarrow> string \<Rightarrow> posix_path" where
  "truediv p key = Path (os_path_join (str_path p) key)"

text \<open>\<open>p.name\<close> and \<open>p.suffix\<close>\<close>

definition path_name :: "posix_path \<Rightarrow> string" where
  "path_name p = (if pp_parts p = [] then [] else last (pp_parts p))"

definition name_suffix :: "string \<Rightarrow> string" where
  "name_suffix n =
     (case rfind CHR ''.'' n of
        None \<Rightarrow> []
      | Some i \<Rightarrow> if 0 < i \<and> i + 1 < length n then drop i n else [])"

definition suffix :: "posix_path \<Rightarrow> string" where
  "suffix p = name_suffix (path_name p)"

text \<open>
  The exceptions that escape: \<open>ValueError\<close> from \<open>relative_to\<close>, and an \<open>OSError\<close> with
  its errno.
\<close>

type_synonym errno = nat

datatype exn = ValueError | OSError errno

text \<open>
  \<open>p.relative_to(other)\<close> raises \<open>ValueError\<close> unless \<open>other\<close> has the root of \<open>p\<close> and
  its components are the first components of \<open>p\<close>.
\<close>

definition relative_to :: "posix_path \<Rightarrow> posix_path \<Rightarrow> exn + posix_path" where
  "relative_to p other =
     (if pp_root p = pp_root other
         \<and> take (length (pp_parts other)) (pp_parts p) = pp_parts other
      then Inr \<lparr>pp_root = [], pp_parts = drop (length (pp_parts other)) (pp_parts p)\<rparr>
      else Inl ValueError)"

section \<open>fnmatch\<close>

text \<open>
  \<open>fnmatch.fnmatch(name, pattern)\<close> on POSIX, for patterns built from literal characters,
  \<open>*\<close> and \<open>?\<close> (no pattern of \<open>IGNORE_PATTERNS\<close> has a bracket expression).
\<close>

fun fnmatch :: "string \<Rightarrow> string \<Rightarrow> bool" where
  "fnmatch [] [] = True"
| "fnmatch (c # cs) [] = False"
| "fnmatch [] (p # ps) = (p = CHR ''*'' \<and> fnmatch [] ps)"
| "fnmatch (c # cs) (p # ps) =
     (if p = CHR ''*'' then fnmatch (c # cs) ps \<or> fnmatch cs (p # ps)
      else if p = CHR ''?'' then fnmatch cs ps
      else p = c \<and> fnmatch cs ps)"

section \<open>The ignore list and the metadata probe\<close>

definition IGNORE_PATTERNS :: "string list" where
  "IGNORE_PATTERNS =
     [''*.pyc'', ''__pycache__'', ''.git'', ''.gitignore'', ''node_modules'',
      ''.env'', ''*.log'', ''.DS_Store'', ''*.tmp'', ''*.temp'', ''.vscode'',
      ''.idea'', ''*.sqlite'', ''*.db'', ''dist'', ''build'', ''.pytest_cache'']"

definition should_ignore :: "string \<Rightarrow> bool" where
  "should_ignore path = (let name = basename path in list_ex (fnmatch name) IGNORE_PATTERNS)"

text \<open>
  What \<open>file_path.stat()\<close> and \<open>file_path.is_file()\<close> find: an \<open>OSError\<close> with its
  errno, or the size and whether the entry is a regular file.
\<close>

record stat_result =
  st_size :: int
  st_isreg :: bool

text \<open>
  The dictionary that \<open>get_file_info\<close> returns: a key that is absent is \<open>None\<close>.
\<close>

record file_info =
  fi_name :: string
  fi_path :: string
  fi_size :: "int option"
  fi_is_file :: "bool option"
  fi_extension :: "string option"
  fi_error :: "string option"

definition get_file_info :: "posix_path \<Rightarrow> errno + stat_result \<Rightarrow> file_info" where
  "get_file_info file_path st =
     (case st of
        Inr stat \<Rightarrow>
          \<lparr>fi_name = path_name file_path, fi_path = str_path file_path,
           fi_size = Some (st_size stat), fi_is_file = Some (st_isreg stat),
           fi_extension = Some (suffix file_path), fi_error = None\<rparr>
      | Inl e \<Rightarrow>
          \<lparr>fi_name = path_name file_path, fi_path = str_path file_path,
           fi_size = None, fi_is_file = None,
           fi_extension = None, fi_error = Some ''Access denied''\<rparr>)"

section \<open>The analysis\<close>

text \<open>
  The file system as \<open>os.walk\<close> sees it: a directory lists its entries in the order of
  \<open>scandir\<close>; an entry that is not a directory carries the outcome of \<open>stat\<close>.
\<close>

datatype fsnode =
  FileNode string "errno + stat_result"
| DirNode string "fsnode list"

fun dirnames :: "fsnode list \<Rightarrow> string list" where
  "dirnames [] = []"
| "dirnames (DirNode d _ # es) = d # dirnames es"
| "dirnames (FileNode _ _ # es) = dirnames es"

fun filenames :: "fsnode list \<Rightarrow> (string \<times> (errno + stat_result)) list" where
  "filenames [] = []"
| "filenames (DirNode _ _ # es) = filenames es"
| "filenames (FileNode f st # es) = (f, st) # filenames es"

text \<open>
  The \<open>structure\<close> dictionary. \<open>key_files\<close> is a \<open>dict\<close>: an association list in
  insertion order. \<open>languages\<close> is a \<open>set\<close> turned into a list at the end, in an order
  Python leaves open: a list without duplicates.
\<close>

record project_structure =
  ps_root :: string
  ps_files :: "file_info list"
  ps_directories :: "string list"
  ps_key_files :: "(string \<times> string) list"
  ps_languages :: "string list"
  ps_framework_indicators :: "string list"

datatype analysis = ErrorResult string | ProjectStructure project_structure

definition key_files_patterns :: "(string \<times> string list) list" where
  "key_files_patterns =
     [(''readme'', [''README.md'', ''README.txt'', ''README.rst'', ''readme.md'']),
      (''license'', [''LICENSE'', ''LICENSE.txt'', ''LICENSE.md'', ''license'']),
      (''config'', [''package.json'', ''requirements.txt'', ''setup.py'', ''Cargo.toml'',
                    ''composer.json'', ''pom.xml'', ''build.gradle'', ''Gemfile'']),
      (''docker'', [''Dockerfile'', ''docker-compose.yml'', ''docker-compose.yaml'']),
      (''ci'', [''.github/workflows'', ''.gitlab-ci.yml'', ''.travis.yml'']),
      (''env'', [''.env.example'', ''.env.sample''])]"

definition language_extensions :: "string list" where
  "language_extensions =
     [''.py'', ''.js'', ''.ts'', ''.java'', ''.cpp'', ''.c'', ''.go'', ''.rs'', ''.rb'', ''.php'']"

text \<open>Lines 85 to 87: the language of one file.\<close>

definition detect_language :: "posix_path \<Rightarrow> string list \<Rightarrow> string list" where
  "detect_language file_path languages =
     (let ext = lower (suffix file_path) in
      if ext \<in> set language_extensions then List.insert (drop 1 ext) languages
      else languages)"

text \<open>Lines 90 to 93: the key files that one file is.\<close>

definition check_key_files ::
  "string \<Rightarrow> posix_path \<Rightarrow> (string \<times> string) list \<Rightarrow> (string \<times> string) list" where
  "check_key_files file file_path key_files =
     fold (\<lambda>(category, patterns) kf.
             fold (\<lambda>pattern kf'.
                     if lower file = lower pattern \<or> file = pattern
                     then AList.update category (str_path file_path) kf' else kf')
                  patterns kf)
          key_files_patterns key_files"

text \<open>Lines 77 to 93: the body of the loop over the files of one directory.\<close>

definition process_file ::
  "string \<Rightarrow> string \<times> (errno + stat_result) \<Rightarrow> project_structure \<Rightarrow> project_structure" where
  "process_file root f s =
     (let file = fst f; file_path = truediv (Path root) file in
      if should_ignore (str_path file_path) then s
      else s\<lparr>ps_files := ps_files s @ [get_file_info file_path (snd f)],
              ps_languages := detect_language file_path (ps_languages s),
              ps_key_files := check_key_files file file_path (ps_key_files s)\<rparr>)"

text \<open>
  Lines 69 to 93: the body of the loop over \<open>os.walk\<close>, for one directory. It returns the
  directory names it leaves in \<open>dirs\<close> and the structure.
\<close>

definition visit ::
  "posix_path \<Rightarrow> int \<Rightarrow> string \<Rightarrow> string list \<Rightarrow> (string \<times> (errno + stat_result)) list
     \<Rightarrow> project_structure \<Rightarrow> exn + string list \<times> project_structure" where
  "visit project_root max_depth root dirs files s =
     (case relative_to (Path root) project_root of
        Inl e \<Rightarrow> Inl e
      | Inr rel \<Rightarrow>
          (let current_depth = int (length (pp_parts rel)) in
           if current_depth > max_depth then Inr (dirs, s)
           else Inr (filter (\<lambda>d. \<not> should_ignore (os_path_join root d)) dirs,
                     fold (process_file root) files s)))"

text \<open>
  \<open>os.walk\<close>, top down, with the body of the loop run where the generator yields:
  \<open>walk\<close> visits the directory \<open>dir_top\<close> (the \<open>top\<close> of \<open>os.walk\<close>), \<open>walk_dirs\<close> then descends into the
  subdirectories whose names the body left in \<open>dirs\<close>.
\<close>

fun walk ::
  "posix_path \<Rightarrow> int \<Rightarrow> string \<Rightarrow> fsnode list \<Rightarrow> project_structure \<Rightarrow> exn + project_structure"
and walk_dirs ::
  "posix_path \<Rightarrow> int \<Rightarrow> string \<Rightarrow> string list \<Rightarrow> fsnode list \<Rightarrow> project_structure
     \<Rightarrow> exn + project_structure"
where
  "walk project_root max_depth dir_top entries s =
     (case visit project_root max_depth dir_top (dirnames entries) (filenames entries) s of
        Inl e \<Rightarrow> Inl e
      | Inr (dirs, s') \<Rightarrow> walk_dirs project_root max_depth dir_top dirs entries s')"
| "walk_dirs project_root max_depth dir_top dirs [] s = Inr s"
| "walk_dirs project_root max_depth dir_top dirs (FileNode f st # es) s =
     walk_dirs project_root max_depth dir_top dirs es s"
| "walk_dirs project_root max_depth dir_top dirs (DirNode d sub # es) s =
     (if d \<in> set dirs then
        (case walk project_root max_depth (os_path_join dir_top d) sub s of
           Inl e \<Rightarrow> Inl e
         | Inr s' \<Rightarrow> walk_dirs project_root max_depth dir_top dirs es s')
      else walk_dirs project_root max_depth dir_top dirs es s)"

text \<open>
  \<open>fs\<close> is the file system: what \<open>stat\<close> finds at a path, the tree there or the errno of
  the \<open>OSError\<close>.

  \<open>Path.exists()\<close> (pathlib of Python 3.12) calls \<open>stat\<close>; an \<open>OSError\<close> whose errno is
  \<open>ENOENT\<close> (2), \<open>ENOTDIR\<close> (20), \<open>EBADF\<close> (9) or \<open>ELOOP\<close> (40, the numbers of Linux)
  means that the path does not exist, and any other \<open>OSError\<close> is raised again. A path
  that cannot be encoded (it has a NUL character) counts as absent as well: \<open>fs\<close> gives
  \<open>ENOENT\<close> there.
\<close>

definition IGNORED_ERRNOS :: "errno list" where
  "IGNORED_ERRNOS = [2, 20, 9, 40]"

definition path_exists :: "(string \<Rightarrow> errno + fsnode) \<Rightarrow> posix_path \<Rightarrow> exn + bool" where
  "path_exists fs p =
     (case fs (str_path p) of
        Inr _ \<Rightarrow> Inr True
      | Inl e \<Rightarrow> if e \<in> set IGNORED_ERRNOS then Inr False else Inl (OSError e))"

text \<open>
  Lines 42 to 96. Nothing catches what \<open>exists()\<close> raises. \<open>os.walk\<close> on something that
  is not a directory yields nothing.
\<close>

definition analyze_project_structure ::
  "(string \<Rightarrow> errno + fsnode) \<Rightarrow> string \<Rightarrow> int \<Rightarrow> exn + analysis" where
  "analyze_project_structure fs project_path max_depth =
     (let project_root = Path project_path in
      case path_exists fs project_root of
        Inl e \<Rightarrow> Inl e
      | Inr found \<Rightarrow>
          if \<not> found then
            Inr (ErrorResult (''Project path '' @ [CHR 0x27] @ project_path @ [CHR 0x27]
                              @ '' does not exist''))
          else
            (let s = \<lparr>ps_root = str_path project_root, ps_files = [], ps_directories = [],
                      ps_key_files = [], ps_languages = [], ps_framework_indicators = []\<rparr>
             in case fs (str_path project_root) of
                  Inr (DirNode _ entries) \<Rightarrow>
                    (case walk project_root max_depth (str_path project_root) entries s of
                       Inl e \<Rightarrow> Inl e
                     | Inr s' \<Rightarrow> Inr (ProjectStructure s'))
                | _ \<Rightarrow> Inr (ProjectStructure s)))"

definition scan_project :: "(string \<Rightarrow> errno + fsnode) \<Rightarrow> string \<Rightarrow> exn + analysis" where
  "scan_project fs project_path = analyze_project_structure fs project_path 3"

section \<open>The generated document\<close>

text \<open>
  \<open>repr\<close> of a string and \<open>str\<close> of a dictionary of strings, as \<open>generate_readme\<close>
  prints \<open>key_files\<close>. A character is printable when Python's \<open>str.isprintable\<close> says so
  of its code point.
\<close>

definition printable :: "char \<Rightarrow> bool" where
  "printable c =
     (let n = (of_char c :: nat) in (32 \<le> n \<and> n < 127) \<or> (161 \<le> n \<and> n \<noteq> 173))"

definition hex_digit :: "nat \<Rightarrow> char" where
  "hex_digit n = ''0123456789abcdef'' ! (n mod 16)"

definition repr_char :: "char \<Rightarrow> char \<Rightarrow> string" where
  "repr_char quote c =
     (if c = quote \<or> c = CHR 0x5C then [CHR 0x5C, c]
      else if c = CHR 0x09 then [CHR 0x5C, CHR ''t'']
      else if c = CHR 0x0A then [CHR 0x5C, CHR ''n'']
      else if c = CHR 0x0D then [CHR 0x5C, CHR ''r'']
      else if \<not> printable c then
        [CHR 0x5C, CHR ''x'', hex_digit (of_char c div 16), hex_digit (of_char c mod 16)]
      else [c])"

definition py_repr :: "string \<Rightarrow> string" where
  "py_repr s =
     (let quote = (if CHR 0x27 \<in> set s \<and> CHR 0x22 \<notin> set s then CHR 0x22 else CHR 0x27)
      in [quote] @ concat (map (repr_char quote) s) @ [quote])"

definition py_str_dict :: "(string \<times> string) list \<Rightarrow> string" where
  "py_str_dict d =
     ''{'' @ py_join '', '' (map (\<lambda>(k, v). py_repr k @ '': '' @ py_repr v) d) @ ''}''"

abbreviation nl :: string where
  "nl \<equiv> [CHR 0x0A]"

text \<open>Lines 130 to 135: the title.\<close>

definition title_section :: "string \<Rightarrow> string option \<Rightarrow> string" where
  "title_section project_path project_name =
     (let project_name' =
        (case project_name of
           None \<Rightarrow> path_name (Path project_path)
         | Some n \<Rightarrow> if n = [] then path_name (Path project_path) else n)
      in ''# '' @ project_name' @ nl @ nl)"

text \<open>Lines 138 to 141.\<close>

definition description_section :: "string option \<Rightarrow> string" where
  "description_section description =
     (case description of
        None \<Rightarrow> ''A brief description of your project.'' @ nl @ nl
      | Some d \<Rightarrow>
          if d = [] then ''A brief description of your project.'' @ nl @ nl
          else d @ nl @ nl)"

text \<open>Lines 144 to 148.\<close>

definition technologies_section :: "string list \<Rightarrow> string" where
  "technologies_section languages =
     (if languages = [] then []
      else ''## Technologies Used'' @ nl @ nl
           @ concat (map (\<lambda>lang. ''- '' @ upper lang @ nl) (sort languages))
           @ nl)"

text \<open>Lines 151 to 161: the block is chosen on the printed \<open>key_files\<close>.\<close>

definition npm_block :: string where
  "npm_block = ''```bash'' @ nl @ ''npm install'' @ nl @ ''```'' @ nl @ nl"

definition pip_block :: string where
  "pip_block = ''```bash'' @ nl @ ''pip install -r requirements.txt'' @ nl @ ''```'' @ nl @ nl"

definition cargo_block :: string where
  "cargo_block = ''```bash'' @ nl @ ''cargo build'' @ nl @ ''```'' @ nl @ nl"

definition placeholder_block :: string where
  "placeholder_block = ''Add installation instructions here.'' @ nl @ nl"

definition install_block :: "(string \<times> string) list \<Rightarrow> string" where
  "install_block key_files =
     (if py_in ''package.json'' (py_str_dict key_files) then npm_block
      else if py_in ''requirements.txt'' (py_str_dict key_files) then pip_block
      else if py_in ''Cargo.toml'' (py_str_dict key_files) then cargo_block
      else placeholder_block)"

definition installation_section :: "(string \<times> string) list \<Rightarrow> string" where
  "installation_section key_files = ''## Installation'' @ nl @ nl @ install_block key_files"

text \<open>Lines 164 and 165.\<close>

definition usage_section :: string where
  "usage_section =
     ''## Usage'' @ nl @ nl @ ''Describe how to use your project here.'' @ nl @ nl"

text \<open>\<open>file_info.get("is_file", True)\<close>: true when the key is absent.\<close>

definition get_is_file :: "file_info \<Rightarrow> bool" where
  "get_is_file file_info = (case fi_is_file file_info of None \<Rightarrow> True | Some b \<Rightarrow> b)"

text \<open>Lines 171 to 174: the lines of the listing.\<close>

fun structure_lines :: "string \<Rightarrow> file_info list \<Rightarrow> exn + string" where
  "structure_lines root [] = Inr []"
| "structure_lines root (file_info # rest) =
     (if get_is_file file_info then
        (case relative_to (Path (fi_path file_info)) (Path root) of
           Inl e \<Rightarrow> Inl e
         | Inr rel_path \<Rightarrow>
             (case structure_lines root rest of
                Inl e \<Rightarrow> Inl e
              | Inr content \<Rightarrow> Inr (str_path rel_path @ nl @ content)))
      else structure_lines root rest)"

text \<open>Lines 168 to 175.\<close>

definition project_structure_section :: "project_structure \<Rightarrow> exn + string" where
  "project_structure_section analysis =
     (if length (ps_files analysis) \<le> 20 then
        (case structure_lines (ps_root analysis) (sort_key fi_path (ps_files analysis)) of
           Inl e \<Rightarrow> Inl e
         | Inr content \<Rightarrow>
             Inr (''## Project Structure'' @ nl @ nl @ ''```'' @ nl @ content
                  @ ''```'' @ nl @ nl))
      else Inr [])"

text \<open>Lines 178 to 183.\<close>

definition contributing_section :: string where
  "contributing_section =
     ''## Contributing'' @ nl @ nl
     @ ''1. Fork the repository'' @ nl
     @ ''2. Create your feature branch (`git checkout -b feature/AmazingFeature`)'' @ nl
     @ ''3. Commit your changes (`git commit -m '' @ [CHR 0x27] @ ''Add some AmazingFeature''
     @ [CHR 0x27] @ ''`)'' @ nl
     @ ''4. Push to the branch (`git push origin feature/AmazingFeature`)'' @ nl
     @ ''5. Open a Pull Request'' @ nl @ nl"

text \<open>Lines 186 to 188.\<close>

definition license_section :: "(string \<times> string) list \<Rightarrow> string" where
  "license_section key_files =
     (if ''license'' \<in> fst ` set key_files then
        ''## License'' @ nl @ nl
        @ ''This project is licensed under the terms found in the LICENSE file.'' @ nl @ nl
      else [])"

definition generate_readme ::
  "(string \<Rightarrow> errno + fsnode) \<Rightarrow> string \<Rightarrow> string option \<Rightarrow> string option \<Rightarrow> exn + string" where
  "generate_readme fs project_path project_name description =
     (case analyze_project_structure fs project_path 3 of
        Inl e \<Rightarrow> Inl e
      | Inr (ErrorResult msg) \<Rightarrow> Inr (''Error: '' @ msg)
      | Inr (ProjectStructure analysis) \<Rightarrow>
          (case project_structure_section analysis of
             Inl e \<Rightarrow> Inl e
           | Inr structure_text \<Rightarrow>
               Inr (title_section project_path project_name
                    @ description_section description
                    @ technologies_section (ps_languages analysis)
                    @ installation_section (ps_key_files analysis)
                    @ usage_section
                    @ structure_text
                    @ contributing_section
                    @ license_section (ps_key_files analysis))))"

section \<open>Well-formed file systems\<close>

text \<open>
  A directory entry has a name that is not empty, is not \<open>.\<close> and has no slash.
\<close>

definition valid_name :: "string \<Rightarrow> bool" where
  "valid_name n = (n \<noteq> [] \<and> n \<noteq> ''.'' \<and> CHR ''/'' \<notin> set n)"

definition normal_path :: "posix_path \<Rightarrow> bool" where
  "normal_path p =
     (pp_root p \<in> set [[], ''/'', ''//''] \<and> list_all valid_name (pp_parts p))"

fun wf_node :: "fsnode \<Rightarrow> bool" where
  "wf_node (FileNode f st) = valid_name f"
| "wf_node (DirNode d sub) = (valid_name d \<and> list_all wf_node sub)"

text \<open>
  The root of a walk is well formed when every entry below it has a valid name (the root
  is named by the path given, not by a directory entry).
\<close>

definition wf_root :: "fsnode \<Rightarrow> bool" where
  "wf_root node = (case node of FileNode _ _ \<Rightarrow> True | DirNode _ sub \<Rightarrow> list_all wf_node sub)"

text \<open>
  An entry of \<open>files\<close> found by a walk from \<open>R\<close> with depth bound \<open>D\<close>: its path is
  \<open>R\<close> followed by the directories \<open>rel\<close> and the file name, no component is ignored, and
  the directory is within the bound.
\<close>

definition entry_ok :: "posix_path \<Rightarrow> int \<Rightarrow> file_info \<Rightarrow> bool" where
  "entry_ok R D e =
     (\<exists>rel f. fi_path e = str_path \<lparr>pp_root = pp_root R, pp_parts = pp_parts R @ rel @ [f]\<rparr>
        \<and> fi_name e = f \<and> int (length rel) \<le> D
        \<and> list_all valid_name (rel @ [f])
        \<and> list_all (\<lambda>x. \<not> should_ignore x) (rel @ [f]))"

text \<open>The directory \<open>dir_top\<close> that a walk from \<open>R\<close> has reached through \<open>rel\<close>.\<close>

definition dir_inv :: "posix_path \<Rightarrow> int \<Rightarrow> string \<Rightarrow> string list \<Rightarrow> bool" where
  "dir_inv R D dir_top rel =
     (dir_top \<noteq> [] \<and> Path dir_top = \<lparr>pp_root = pp_root R, pp_parts = pp_parts R @ rel\<rparr>
      \<and> list_all valid_name rel
      \<and> (int (length rel) \<le> D \<longrightarrow> list_all (\<lambda>x. \<not> should_ignore x) rel))"

text \<open>The language tag that a file name gives, if any.\<close>

definition language_tag :: "string \<Rightarrow> string option" where
  "language_tag n =
     (let ext = lower (name_suffix n) in
      if ext \<in> set language_extensions then Some (drop 1 ext) else None)"

definition lang_inv :: "project_structure \<Rightarrow> bool" where
  "lang_inv s =
     (distinct (ps_languages s)
      \<and> set (ps_languages s) = {t. \<exists>e \<in> set (ps_files s). language_tag (fi_name e) = Some t})"

section \<open>Example file systems\<close>

definition regular_file :: "int \<Rightarrow> errno + stat_result" where
  "regular_file n = Inr \<lparr>st_size = n, st_isreg = True\<rparr>"

text \<open>A directory at \<open>p\<close>; \<open>stat\<close> fails with \<open>ENOENT\<close> everywhere else.\<close>

definition fs_at :: "string \<Rightarrow> fsnode list \<Rightarrow> string \<Rightarrow> errno + fsnode" where
  "fs_at p entries q = (if q = p then Inr (DirNode p entries) else Inl 2)"

text \<open>\<open>proj/a/f\<close>: one file in one subdirectory.\<close>

definition fs_nested :: "string \<Rightarrow> errno + fsnode" where
  "fs_nested = fs_at ''proj'' [DirNode ''a'' [FileNode ''f'' (regular_file 1)]]"

text \<open>\<open>package.json\<close> listed before \<open>Cargo.toml\<close> in one directory.\<close>

definition fs_two_configs :: "string \<Rightarrow> errno + fsnode" where
  "fs_two_configs =
     fs_at ''proj'' [FileNode ''package.json'' (regular_file 2),
                     FileNode ''Cargo.toml'' (regular_file 3)]"

text \<open>\<open>Cargo.toml\<close> listed before \<open>package.json\<close> in one directory.\<close>

definition fs_npm_last :: "string \<Rightarrow> errno + fsnode" where
  "fs_npm_last =
     fs_at ''proj'' [FileNode ''Cargo.toml'' (regular_file 3),
                     FileNode ''package.json'' (regular_file 2)]"

text \<open>A project in a directory whose own name contains \<open>package.json\<close>.\<close>

definition fs_named :: "string \<Rightarrow> errno + fsnode" where
  "fs_named = fs_at ''package.json.d'' [FileNode ''README.md'' (regular_file 5)]"

text \<open>\<open>a.py\<close> is a dangling symbolic link: \<open>stat\<close> fails with \<open>ENOENT\<close>.\<close>

definition fs_dangling :: "string \<Rightarrow> errno + fsnode" where
  "fs_dangling = fs_at ''proj'' [FileNode ''a.py'' (Inl 2)]"

text \<open>A named pipe beside a regular file: \<open>stat\<close> succeeds, \<open>is_file()\<close> is false.\<close>

definition fs_fifo :: "string \<Rightarrow> errno + fsnode" where
  "fs_fifo =
     fs_at ''proj'' [FileNode ''pipe'' (Inr \<lparr>st_size = 0, st_isreg = False\<rparr>),
                     FileNode ''main.py'' (regular_file 7)]"

text \<open>A tree with ignored entries: a \<open>.git\<close> directory, a \<open>.pyc\<close> file.\<close>

definition fs_ignored :: "string \<Rightarrow> errno + fsnode" where
  "fs_ignored =
     fs_at ''proj'' [DirNode ''.git'' [FileNode ''config'' (regular_file 1)],
                     FileNode ''x.pyc'' (regular_file 2),
                     DirNode ''src'' [FileNode ''index.js'' (regular_file 3)]]"

text \<open>A project in a directory named \<open>build\<close>.\<close>

definition fs_build :: "string \<Rightarrow> errno + fsnode" where
  "fs_build = fs_at ''build'' [FileNode ''main.go'' (regular_file 4)]"


text \<open>The \<open>key_files\<close> of a result, empty for the error result.\<close>

definition ps_key_files_of :: "analysis \<Rightarrow> (string \<times> string) list" where
  "ps_key_files_of a = (case a of ErrorResult _ \<Rightarrow> [] | ProjectStructure s \<Rightarrow> ps_key_files s)"

text \<open>The \<open>files\<close> of a result, empty for the error result.\<close>

definition ps_files_of :: "analysis \<Rightarrow> file_info list" where
  "ps_files_of a = (case a of ErrorResult _ \<Rightarrow> [] | ProjectStructure s \<Rightarrow> ps_files s)"

section \<open>Lemmas on strings and paths\<close>

lemma rfind_None_iff: "rfind c s = None \<longleftrightarrow> c \<notin> set s"
  by (induction s) (auto split: option.splits)

lemma rfind_append_last: "c \<notin> set n \<Longrightarrow> rfind c (a @ c # n) = Some (length a)"
proof (induction a)
  case Nil
  then have "rfind c n = None" by (simp add: rfind_None_iff)
  then show ?case by simp
next
  case (Cons x a)
  then show ?case by simp
qed

lemma basename_no_slash: "CHR ''/'' \<notin> set n \<Longrightarrow> basename n = n"
  by (simp add: basename_def rfind_None_iff[THEN iffD2])

lemma basename_after_slash: "CHR ''/'' \<notin> set n \<Longrightarrow> basename (a @ CHR ''/'' # n) = n"
  by (simp add: basename_def rfind_append_last)

lemma split_slash_not_Nil: "split_slash s \<noteq> []"
  by (induction s) (auto split: list.splits)

lemma split_slash_no_slash: "CHR ''/'' \<notin> set a \<Longrightarrow> split_slash a = [a]"
  by (induction a) auto

lemma split_slash_append:
  "split_slash (a @ CHR ''/'' # b) = split_slash a @ split_slash b"
proof (induction a)
  case Nil
  show ?case by (simp add: split_slash_not_Nil)
next
  case (Cons x a)
  show ?case
  proof (cases "x = CHR ''/''")
    case True
    then show ?thesis using Cons by simp
  next
    case False
    obtain w ws where w: "split_slash a = w # ws"
      using split_slash_not_Nil[of a] by (cases "split_slash a") auto
    show ?thesis using False Cons w by simp
  qed
qed

lemma split_slash_pieces: "x \<in> set (split_slash s) \<Longrightarrow> CHR ''/'' \<notin> set x"
proof (induction s arbitrary: x)
  case Nil
  then show ?case by simp
next
  case (Cons c s)
  show ?case
  proof (cases "c = CHR ''/''")
    case True
    then show ?thesis using Cons by auto
  next
    case False
    obtain w ws where w: "split_slash s = w # ws"
      using split_slash_not_Nil[of s] by (cases "split_slash s") auto
    show ?thesis using False Cons w by auto
  qed
qed

lemma parts_Path_valid: "list_all valid_name (pp_parts (Path s))"
  by (auto simp: Path_def list_all_iff valid_name_def dest: split_slash_pieces)

lemma splitroot_cases: "splitroot s = [] \<or> splitroot s = ''/'' \<or> splitroot s = ''//''"
  by (cases s rule: splitroot.cases) auto

lemma normal_Path: "normal_path (Path s)"
  using splitroot_cases[of s] parts_Path_valid[of s]
  by (auto simp: normal_path_def Path_def)

lemma valid_name_facts:
  "valid_name n \<Longrightarrow> take 1 n \<noteq> ''/'' \<and> CHR ''/'' \<notin> set n \<and> n \<noteq> [] \<and> n \<noteq> ''.''"
  by (cases n) (auto simp: valid_name_def)

lemma os_path_join_valid:
  assumes "s \<noteq> []" "valid_name n"
  shows "os_path_join s n = (if last s = CHR ''/'' then butlast s else s) @ CHR ''/'' # n"
proof -
  have n: "take 1 n \<noteq> ''/''" using valid_name_facts[OF assms(2)] by simp
  show ?thesis
  proof (cases "last s = CHR ''/''")
    case True
    have "butlast s @ [last s] = s" using assms(1) by simp
    then have "s @ n = butlast s @ CHR ''/'' # n" using True
      by (metis append_Cons append_Nil append_assoc)
    then show ?thesis using True n by (simp add: os_path_join_def)
  next
    case False
    then show ?thesis using assms(1) n by (simp add: os_path_join_def)
  qed
qed

lemma split_slash_strip:
  "s \<noteq> [] \<Longrightarrow>
   filter (\<lambda>x. x \<noteq> [] \<and> x \<noteq> ''.'') (split_slash (if last s = CHR ''/'' then butlast s else s))
   = filter (\<lambda>x. x \<noteq> [] \<and> x \<noteq> ''.'') (split_slash s)"
proof (cases "last s = CHR ''/''")
  case True
  assume "s \<noteq> []"
  then have "s = butlast s @ CHR ''/'' # []" using True by (metis append_butlast_last_id)
  then have "split_slash s = split_slash (butlast s) @ split_slash []"
    using split_slash_append[of "butlast s" "[]"] by simp
  then show ?thesis using True by simp
next
  case False
  then show ?thesis by simp
qed

lemma parts_join:
  assumes "s \<noteq> []" "valid_name n"
  shows "pp_parts (Path (os_path_join s n)) = pp_parts (Path s) @ [n]"
proof -
  have n: "CHR ''/'' \<notin> set n" "n \<noteq> []" "n \<noteq> ''.''"
    using valid_name_facts[OF assms(2)] by simp_all
  have "pp_parts (Path (os_path_join s n))
        = filter (\<lambda>x. x \<noteq> [] \<and> x \<noteq> ''.'')
            (split_slash (if last s = CHR ''/'' then butlast s else s)) @ [n]"
    unfolding os_path_join_valid[OF assms] Path_def
    using n by (simp add: split_slash_append split_slash_no_slash del: split_slash.simps)
  then show ?thesis using split_slash_strip[OF assms(1)] by (simp add: Path_def)
qed

lemma splitroot_extend:
  assumes "s \<noteq> []" "take 1 n \<noteq> ''/''"
  shows "splitroot ((if last s = CHR ''/'' then butlast s else s) @ CHR ''/'' # n) = splitroot s"
proof (cases s rule: splitroot.cases)
  case (1 a b c r)
  show ?thesis
  proof (cases r)
    case Nil
    then show ?thesis using 1 by simp
  next
    case (Cons x xs)
    then show ?thesis using 1 by simp
  qed
next
  case (2 a b)
  then show ?thesis using assms(2) by (cases n) auto
next
  case (3 a)
  show ?thesis
  proof (cases n)
    case Nil
    then show ?thesis using 3 by simp
  next
    case (Cons x xs)
    then show ?thesis using 3 assms(2) by (cases xs) auto
  qed
next
  case 4
  then show ?thesis using assms(1) by simp
qed

lemma root_join:
  assumes "s \<noteq> []" "valid_name n"
  shows "pp_root (Path (os_path_join s n)) = pp_root (Path s)"
proof -
  have n: "take 1 n \<noteq> ''/''" using valid_name_facts[OF assms(2)] by simp
  show ?thesis
    unfolding os_path_join_valid[OF assms] Path_def
    using splitroot_extend[OF assms(1) n] by simp
qed

lemma Path_join:
  assumes "s \<noteq> []" "valid_name n"
  shows "Path (os_path_join s n) = \<lparr>pp_root = pp_root (Path s), pp_parts = pp_parts (Path s) @ [n]\<rparr>"
  using parts_join[OF assms] root_join[OF assms] by (cases "Path (os_path_join s n)") simp

lemma filter_valid_names:
  "list_all valid_name ps \<Longrightarrow> filter (\<lambda>x. x \<noteq> [] \<and> x \<noteq> ''.'') ps = ps"
  by (induction ps) (auto simp: valid_name_def)

lemma split_py_join:
  "ps \<noteq> [] \<Longrightarrow> list_all valid_name ps \<Longrightarrow> split_slash (py_join ''/'' ps) = ps"
proof (induction "''/''" ps rule: py_join.induct)
  case 1
  then show ?case by simp
next
  case (2 x)
  then show ?case by (simp add: split_slash_no_slash valid_name_def)
next
  case (3 x y ys)
  have "split_slash (x @ CHR ''/'' # py_join ''/'' (y # ys)) = [x] @ (y # ys)"
    using 3 by (simp add: split_slash_append split_slash_no_slash valid_name_def
        del: split_slash.simps)
  then show ?case by simp
qed

lemma py_join_hd:
  "ps \<noteq> [] \<Longrightarrow> list_all valid_name ps \<Longrightarrow> \<exists>c r. py_join ''/'' ps = c # r \<and> c \<noteq> CHR ''/''"
proof (induction "''/''" ps rule: py_join.induct)
  case 1
  then show ?case by simp
next
  case (2 x)
  then show ?case by (cases x) (auto simp: valid_name_def)
next
  case (3 x y ys)
  then show ?case by (cases x) (auto simp: valid_name_def)
qed

lemma splitroot_nonslash: "c \<noteq> CHR ''/'' \<Longrightarrow> splitroot (c # r) = []"
  by (cases "c # r" rule: splitroot.cases) auto

lemma splitroot_slash_nonslash: "c \<noteq> CHR ''/'' \<Longrightarrow> splitroot (CHR ''/'' # c # r) = ''/''"
  by (cases r) auto

lemma Path_str_path:
  assumes "normal_path p"
  shows "Path (str_path p) = p"
proof (cases "pp_parts p = []")
  case True
  then show ?thesis using assms
    by (cases p) (auto simp: normal_path_def str_path_def Path_def)
next
  case False
  have v: "list_all valid_name (pp_parts p)" using assms by (simp add: normal_path_def)
  obtain c r where j: "py_join ''/'' (pp_parts p) = c # r" "c \<noteq> CHR ''/''"
    using py_join_hd[OF False v] by blast
  have sp: "split_slash (c # r) = pp_parts p"
    using split_py_join[OF False v] j by simp
  have fl: "filter (\<lambda>x. x \<noteq> [] \<and> x \<noteq> ''.'') (pp_parts p) = pp_parts p"
    using filter_valid_names[OF v] .
  have r: "pp_root p = [] \<or> pp_root p = ''/'' \<or> pp_root p = ''//''"
    using assms by (simp add: normal_path_def)
  have s: "str_path p = pp_root p @ c # r" using False j by (simp add: str_path_def)
  from r show ?thesis
  proof (elim disjE)
    assume a: "pp_root p = []"
    have "Path (c # r) = \<lparr>pp_root = [], pp_parts = pp_parts p\<rparr>"
      unfolding Path_def sp fl using splitroot_nonslash[OF j(2)] by simp
    then show ?thesis using a s by simp
  next
    assume a: "pp_root p = ''/''"
    have "split_slash (CHR ''/'' # c # r) = [] # pp_parts p" using sp by simp
    then have "Path (CHR ''/'' # c # r) = \<lparr>pp_root = ''/'', pp_parts = pp_parts p\<rparr>"
      unfolding Path_def using fl splitroot_slash_nonslash[OF j(2)] by simp
    then show ?thesis using a s by simp
  next
    assume a: "pp_root p = ''//''"
    have "split_slash (CHR ''/'' # CHR ''/'' # c # r) = [] # [] # pp_parts p" using sp by simp
    then have "Path (CHR ''/'' # CHR ''/'' # c # r) = \<lparr>pp_root = ''//'', pp_parts = pp_parts p\<rparr>"
      unfolding Path_def using fl j(2) by simp
    then show ?thesis using a s by simp
  qed
qed

lemma str_path_not_Nil: "normal_path p \<Longrightarrow> str_path p \<noteq> []"
  using Path_str_path[of p] by (auto simp: Path_def normal_path_def str_path_def)

lemma truediv_valid:
  assumes "normal_path p" "valid_name n"
  shows "truediv p n = \<lparr>pp_root = pp_root p, pp_parts = pp_parts p @ [n]\<rparr>"
  unfolding truediv_def
  using Path_join[OF str_path_not_Nil[OF assms(1)] assms(2)] Path_str_path[OF assms(1)]
  by simp

lemma basename_join:
  assumes "s \<noteq> []" "valid_name n"
  shows "basename (os_path_join s n) = n"
  unfolding os_path_join_valid[OF assms]
  using valid_name_facts[OF assms(2)] by (simp add: basename_after_slash)

lemma py_join_snoc:
  "py_join sep (ps @ [n]) = (if ps = [] then n else py_join sep ps @ sep @ n)"
  by (induction sep ps rule: py_join.induct) auto

lemma basename_str_path:
  assumes "pp_root p \<in> set [[], ''/'', ''//'']" "pp_parts p = ps @ [n]" "valid_name n"
  shows "basename (str_path p) = n"
proof -
  have n: "CHR ''/'' \<notin> set n" using valid_name_facts[OF assms(3)] by simp
  show ?thesis
  proof (cases "ps = []")
    case True
    have a: "basename n = n" using n by (rule basename_no_slash)
    have b: "basename (CHR ''/'' # n) = n" using basename_after_slash[OF n, of "[]"] by simp
    have c: "basename (CHR ''/'' # CHR ''/'' # n) = n"
      using basename_after_slash[OF n, of "''/''"] by simp
    show ?thesis using assms(1,2) True a b c by (auto simp: str_path_def)
  next
    case False
    have "str_path p = (pp_root p @ py_join ''/'' ps) @ CHR ''/'' # n"
      using assms(2) False by (simp add: str_path_def py_join_snoc)
    then show ?thesis
      using basename_after_slash[OF n, of "pp_root p @ py_join ''/'' ps"] by simp
  qed
qed

lemma should_ignore_basename: "basename p = n \<Longrightarrow> basename n = n \<Longrightarrow> should_ignore p = should_ignore n"
  by (simp add: should_ignore_def)

lemma should_ignore_join:
  assumes "s \<noteq> []" "valid_name n"
  shows "should_ignore (os_path_join s n) = should_ignore n"
  using basename_join[OF assms] valid_name_facts[OF assms(2)]
  by (intro should_ignore_basename) (simp_all add: basename_no_slash)

lemma should_ignore_str_path:
  assumes "pp_root p \<in> set [[], ''/'', ''//'']" "pp_parts p = ps @ [n]" "valid_name n"
  shows "should_ignore (str_path p) = should_ignore n"
  using basename_str_path[OF assms] valid_name_facts[OF assms(3)]
  by (intro should_ignore_basename) (simp_all add: basename_no_slash)

lemma py_in_Nil: "py_in [] s"
  by (cases s) auto

lemma py_in_append: "py_in w (a @ w @ b)"
proof (induction a)
  case Nil
  show ?case
  proof (cases "w @ b")
    case Nil
    then show ?thesis by simp
  next
    case (Cons x xs)
    have "take (length w) (w @ b) = w" by simp
    then show ?thesis using Cons by simp
  qed
next
  case (Cons x a)
  then show ?case by simp
qed

section \<open>Lemmas on the walk\<close>

lemma get_file_info_name_path:
  "fi_name (get_file_info fp st) = path_name fp" "fi_path (get_file_info fp st) = str_path fp"
  by (cases st; simp add: get_file_info_def)+

lemma process_file_files:
  "ps_files (process_file root f s) =
     ps_files s @ (if should_ignore (str_path (truediv (Path root) (fst f))) then []
                   else [get_file_info (truediv (Path root) (fst f)) (snd f)])"
  by (simp add: process_file_def Let_def)

lemma process_file_root: "ps_root (process_file root f s) = ps_root s"
  by (simp add: process_file_def Let_def)

lemma fold_process_file_root: "ps_root (fold (process_file root) fs s) = ps_root s"
  by (induction fs arbitrary: s) (simp_all add: process_file_root)

lemma detect_language_tag:
  "detect_language fp langs =
     (case language_tag (path_name fp) of None \<Rightarrow> langs | Some t \<Rightarrow> List.insert t langs)"
  by (simp add: detect_language_def language_tag_def suffix_def Let_def)

lemma process_file_lang_inv:
  assumes "lang_inv s"
  shows "lang_inv (process_file root f s)"
proof (cases "should_ignore (str_path (truediv (Path root) (fst f)))")
  case True
  then show ?thesis using assms by (simp add: process_file_def Let_def)
next
  case False
  let ?fp = "truediv (Path root) (fst f)"
  have fs: "ps_files (process_file root f s) = ps_files s @ [get_file_info ?fp (snd f)]"
    using False by (simp add: process_file_files)
  have ls: "ps_languages (process_file root f s) = detect_language ?fp (ps_languages s)"
    using False by (simp add: process_file_def Let_def)
  show ?thesis
    using assms unfolding lang_inv_def fs ls detect_language_tag
    by (cases "language_tag (path_name ?fp)") (auto simp: get_file_info_name_path)
qed

lemma visit_preserves:
  assumes step: "\<And>root f s. I s \<Longrightarrow> I (process_file root f s)"
    and "I s" "visit R D dir_top dirs fs s = Inr (dirs', s')"
  shows "I s'"
proof -
  have "I (fold (process_file dir_top) fs s)" using \<open>I s\<close>
    by (induction fs arbitrary: s) (simp_all add: step)
  then show ?thesis using assms(2,3)
    by (auto simp: visit_def Let_def split: sum.splits if_splits)
qed

lemma walk_preserves:
  assumes step: "\<And>root f s. I s \<Longrightarrow> I (process_file root f s)"
  shows "I s \<Longrightarrow> walk R D dir_top entries s = Inr s' \<Longrightarrow> I s'"
    and "I s \<Longrightarrow> walk_dirs R D dir_top dirs entries s = Inr s' \<Longrightarrow> I s'"
proof (induction R D dir_top entries s and R D dir_top dirs entries s
    arbitrary: s' and s' rule: walk_walk_dirs.induct)
  case (1 R D dir_top entries s)
  from "1.prems"(2) obtain dirs s1 where
    v: "visit R D dir_top (dirnames entries) (filenames entries) s = Inr (dirs, s1)"
    and w: "walk_dirs R D dir_top dirs entries s1 = Inr s'"
    by (auto split: sum.splits prod.splits)
  have "I s1" using visit_preserves[where I = I, OF step "1.prems"(1) v] .
  then show ?case using "1.IH"[OF v refl _ w] by simp
next
  case (2 R D dir_top dirs s)
  then show ?case by simp
next
  case (3 R D dir_top dirs f st es s)
  then show ?case by simp
next
  case (4 R D dir_top dirs d sub es s)
  show ?case
  proof (cases "d \<in> set dirs")
    case True
    with "4.prems"(2) obtain s1 where
      w1: "walk R D (os_path_join dir_top d) sub s = Inr s1"
      and w2: "walk_dirs R D dir_top dirs es s1 = Inr s'"
      by (auto split: sum.splits)
    have "I s1" using "4.IH"(1)[OF True "4.prems"(1) w1] .
    then show ?thesis using "4.IH"(2)[OF True w1 _ w2] by simp
  next
    case False
    then show ?thesis using 4 by simp
  qed
qed

lemma filenames_valid: "list_all wf_node es \<Longrightarrow> list_all (\<lambda>f. valid_name (fst f)) (filenames es)"
  by (induction es rule: filenames.induct) auto

lemma dir_inv_relative:
  "dir_inv R D dir_top rel \<Longrightarrow>
   relative_to (Path dir_top) R = Inr \<lparr>pp_root = [], pp_parts = rel\<rparr>"
  by (simp add: dir_inv_def relative_to_def)

lemma dir_inv_child:
  assumes "dir_inv R D dir_top rel" "valid_name d"
    and "int (length rel) \<le> D \<longrightarrow> \<not> should_ignore d"
  shows "dir_inv R D (os_path_join dir_top d) (rel @ [d])"
proof -
  have t: "dir_top \<noteq> []" using assms(1) by (simp add: dir_inv_def)
  have "os_path_join dir_top d \<noteq> []"
    unfolding os_path_join_valid[OF t assms(2)] by simp
  then show ?thesis
    using assms Path_join[OF t assms(2)] by (auto simp: dir_inv_def)
qed

lemma process_file_ok:
  assumes "normal_path R" "dir_inv R D dir_top rel" "int (length rel) \<le> D"
    and "valid_name (fst f)" "list_all (entry_ok R D) (ps_files s)"
  shows "list_all (entry_ok R D) (ps_files (process_file dir_top f s))"
proof -
  let ?fp = "\<lparr>pp_root = pp_root R, pp_parts = pp_parts R @ rel @ [fst f]\<rparr>"
  have pt: "Path dir_top = \<lparr>pp_root = pp_root R, pp_parts = pp_parts R @ rel\<rparr>"
    using assms(2) by (simp add: dir_inv_def)
  have fp: "truediv (Path dir_top) (fst f) = ?fp"
    using truediv_valid[OF normal_Path assms(4), of dir_top] pt by simp
  have r: "pp_root ?fp \<in> set [[], ''/'', ''//'']"
    using assms(1) by (simp add: normal_path_def)
  have ig: "should_ignore (str_path ?fp) = should_ignore (fst f)"
    using should_ignore_str_path[OF r _ assms(4), of "pp_parts R @ rel"] by simp
  show ?thesis
  proof (cases "should_ignore (fst f)")
    case True
    then show ?thesis using assms(5) by (simp add: process_file_files fp ig)
  next
    case False
    have "entry_ok R D (get_file_info ?fp (snd f))"
      unfolding entry_ok_def
      using assms(2,3,4) False
      by (intro exI[of _ rel] exI[of _ "fst f"])
         (simp add: get_file_info_name_path path_name_def dir_inv_def)
    then show ?thesis using assms(5) False by (simp add: process_file_files fp ig)
  qed
qed

lemma fold_process_file_ok:
  assumes "normal_path R" "dir_inv R D dir_top rel" "int (length rel) \<le> D"
  shows "list_all (\<lambda>f. valid_name (fst f)) fs \<Longrightarrow> list_all (entry_ok R D) (ps_files s)
         \<Longrightarrow> list_all (entry_ok R D) (ps_files (fold (process_file dir_top) fs s))"
proof (induction fs arbitrary: s)
  case Nil
  then show ?case by simp
next
  case (Cons f fs)
  have "list_all (entry_ok R D) (ps_files (process_file dir_top f s))"
    using process_file_ok[OF assms] Cons.prems by simp
  then show ?case using Cons by simp
qed

lemma visit_ok:
  assumes "normal_path R" "dir_inv R D dir_top rel"
    and "list_all (\<lambda>f. valid_name (fst f)) fs" "list_all (entry_ok R D) (ps_files s)"
  shows "\<exists>dirs' s'. visit R D dir_top dirs fs s = Inr (dirs', s')
           \<and> list_all (entry_ok R D) (ps_files s')
           \<and> set dirs' \<subseteq> set dirs
           \<and> (int (length rel) \<le> D \<longrightarrow> (\<forall>d \<in> set dirs'. \<not> should_ignore (os_path_join dir_top d)))"
proof (cases "int (length rel) \<le> D")
  case True
  then show ?thesis
    using fold_process_file_ok[OF assms(1,2) True assms(3,4)]
    by (auto simp: visit_def dir_inv_relative[OF assms(2)])
next
  case False
  then show ?thesis using assms(4)
    by (auto simp: visit_def dir_inv_relative[OF assms(2)])
qed

lemma walk_ok:
  assumes R: "normal_path R"
  shows "list_all wf_node entries \<Longrightarrow> dir_inv R D dir_top rel
         \<Longrightarrow> list_all (entry_ok R D) (ps_files s)
         \<Longrightarrow> \<exists>s'. walk R D dir_top entries s = Inr s' \<and> list_all (entry_ok R D) (ps_files s')"
    and "list_all wf_node entries \<Longrightarrow> dir_inv R D dir_top rel
         \<Longrightarrow> list_all (entry_ok R D) (ps_files s)
         \<Longrightarrow> (int (length rel) \<le> D \<longrightarrow> (\<forall>d \<in> set dirs. \<not> should_ignore (os_path_join dir_top d)))
         \<Longrightarrow> \<exists>s'. walk_dirs R D dir_top dirs entries s = Inr s'
                \<and> list_all (entry_ok R D) (ps_files s')"
  using R
proof (induction R D dir_top entries s and R D dir_top dirs entries s
    arbitrary: rel and rel rule: walk_walk_dirs.induct)
  case (1 R D dir_top entries s)
  obtain dirs s1 where
    v: "visit R D dir_top (dirnames entries) (filenames entries) s = Inr (dirs, s1)"
    and ok1: "list_all (entry_ok R D) (ps_files s1)"
    and ig: "int (length rel) \<le> D \<longrightarrow> (\<forall>d \<in> set dirs. \<not> should_ignore (os_path_join dir_top d))"
    using visit_ok[OF "1.prems"(4) "1.prems"(2) filenames_valid[OF "1.prems"(1)] "1.prems"(3)]
    by blast
  show ?case
    using "1.IH"[OF v refl "1.prems"(1,2) ok1 ig "1.prems"(4)] v by simp
next
  case (2 R D dir_top dirs s)
  then show ?case by simp
next
  case (3 R D dir_top dirs f st es s)
  then show ?case by simp
next
  case (4 R D dir_top dirs d sub es s)
  have wf: "valid_name d" "list_all wf_node sub" "list_all wf_node es"
    using "4.prems"(1) by simp_all
  show ?case
  proof (cases "d \<in> set dirs")
    case True
    have t: "dir_top \<noteq> []" using "4.prems"(2) by (simp add: dir_inv_def)
    have "int (length rel) \<le> D \<longrightarrow> \<not> should_ignore d"
      using "4.prems"(4) True should_ignore_join[OF t wf(1)] by auto
    then have ch: "dir_inv R D (os_path_join dir_top d) (rel @ [d])"
      using dir_inv_child[OF "4.prems"(2) wf(1)] by simp
    obtain s1 where w1: "walk R D (os_path_join dir_top d) sub s = Inr s1"
      and ok1: "list_all (entry_ok R D) (ps_files s1)"
      using "4.IH"(1)[OF True wf(2) ch "4.prems"(3) "4.prems"(5)] by blast
    show ?thesis
      using "4.IH"(2)[OF True w1 wf(3) "4.prems"(2) ok1 "4.prems"(4) "4.prems"(5)] True w1
      by simp
  next
    case False
    then show ?thesis
      using "4.IH"(3)[OF False wf(3) "4.prems"(2,3,4,5)] by simp
  qed
qed

section \<open>The metadata probe\<close>

lemma name_suffix_ext:
  assumes "n = stem @ CHR ''.'' # ext" "stem \<noteq> []" "ext \<noteq> []" "CHR ''.'' \<notin> set ext"
  shows "name_suffix n = CHR ''.'' # ext"
proof -
  have "rfind CHR ''.'' n = Some (length stem)"
    using assms(1,4) by (simp add: rfind_append_last)
  then show ?thesis using assms(1,2,3) by (simp add: name_suffix_def)
qed

lemma name_suffix_none: "CHR ''.'' \<notin> set n \<Longrightarrow> name_suffix n = []"
  by (simp add: name_suffix_def rfind_None_iff[THEN iffD2])

lemma fold_process_file_files:
  "ps_files (fold (process_file root) fs s) =
     ps_files s @ map (\<lambda>f. get_file_info (truediv (Path root) (fst f)) (snd f))
                      (filter (\<lambda>f. \<not> should_ignore (str_path (truediv (Path root) (fst f)))) fs)"
  by (induction fs arbitrary: s) (simp_all add: process_file_files)

text \<open>
  C10: whenever the probe fails, whatever the errno of the \<open>OSError\<close>, the \<open>error\<close> field of
  the entry is the fixed string \<open>Access denied\<close>.
\<close>

theorem probe_error_message:
  "fi_error (get_file_info file_path (Inl e)) = Some ''Access denied''"
  by (simp add: get_file_info_def)

theorem probe_error_message_witness:
  "fi_error (get_file_info (Path ''proj/a.py'') (Inl 2)) = Some ''Access denied''
   \<and> fi_error (get_file_info (Path ''proj/a.py'') (Inl 13)) = Some ''Access denied''"
  using probe_error_message[of "Path ''proj/a.py''" 2]
    probe_error_message[of "Path ''proj/a.py''" 13]
  by simp

text \<open>
  C7: the probe returns an entry for every outcome of \<open>stat\<close>. When \<open>stat\<close> fails the
  entry has \<open>name\<close>, \<open>path\<close> and \<open>error\<close> and nothing else; every entry has either
  \<open>size\<close>, \<open>is_file\<close> and \<open>extension\<close>, or \<open>error\<close>, never both and never neither; and the
  loop over the files of a directory goes on after a failed probe: every file that is
  not ignored gets its entry, in order.
\<close>

theorem probe_total_exclusive:
  "fi_name (get_file_info file_path (Inl e)) = path_name file_path
   \<and> fi_path (get_file_info file_path (Inl e)) = str_path file_path
   \<and> fi_error (get_file_info file_path (Inl e)) \<noteq> None
   \<and> fi_size (get_file_info file_path (Inl e)) = None
   \<and> fi_is_file (get_file_info file_path (Inl e)) = None
   \<and> fi_extension (get_file_info file_path (Inl e)) = None
   \<and> ((fi_size (get_file_info file_path st) \<noteq> None
        \<and> fi_is_file (get_file_info file_path st) \<noteq> None
        \<and> fi_extension (get_file_info file_path st) \<noteq> None
        \<and> fi_error (get_file_info file_path st) = None)
       \<or> (fi_size (get_file_info file_path st) = None
           \<and> fi_is_file (get_file_info file_path st) = None
           \<and> fi_extension (get_file_info file_path st) = None
           \<and> fi_error (get_file_info file_path st) \<noteq> None))
   \<and> ps_files (fold (process_file root) fs s) =
       ps_files s @ map (\<lambda>f. get_file_info (truediv (Path root) (fst f)) (snd f))
                        (filter (\<lambda>f. \<not> should_ignore (str_path (truediv (Path root) (fst f)))) fs)"
  by (cases st) (simp_all add: get_file_info_def fold_process_file_files)

lemma rfind_Some:
  "rfind c s = Some i \<Longrightarrow> i < length s \<and> s ! i = c \<and> c \<notin> set (drop (Suc i) s)"
proof (induction s arbitrary: i)
  case Nil
  then show ?case by simp
next
  case (Cons x xs)
  show ?case
  proof (cases "rfind c xs")
    case None
    have nin: "c \<notin> set xs" using None by (simp add: rfind_None_iff)
    have "x = c \<and> i = 0" using Cons.prems None by (simp split: if_splits)
    then show ?thesis using nin by simp
  next
    case (Some k)
    then have i: "i = Suc k" using Cons.prems by simp
    show ?thesis using Cons.IH[OF Some] i by simp
  qed
qed

lemma name_suffix_split:
  assumes "name_suffix n \<noteq> []"
  shows "\<exists>stem ext. n = stem @ CHR ''.'' # ext \<and> stem \<noteq> [] \<and> ext \<noteq> []
           \<and> CHR ''.'' \<notin> set ext"
proof -
  from assms obtain i where i: "rfind CHR ''.'' n = Some i" "0 < i" "i + 1 < length n"
    by (auto simp: name_suffix_def split: option.splits if_splits)
  have f: "i < length n" "n ! i = CHR ''.''" "CHR ''.'' \<notin> set (drop (Suc i) n)"
    using rfind_Some[OF i(1)] by simp_all
  have "n = take i n @ CHR ''.'' # drop (Suc i) n"
    using id_take_nth_drop[OF f(1)] f(2) by simp
  moreover have "take i n \<noteq> []" using i(2) f(1) by auto
  moreover have "drop (Suc i) n \<noteq> []" using i(3) by simp
  ultimately show ?thesis using f(3) by blast
qed

lemma name_suffix_empty_iff:
  "name_suffix n = [] \<longleftrightarrow>
     \<not> (\<exists>stem ext. n = stem @ CHR ''.'' # ext \<and> stem \<noteq> [] \<and> ext \<noteq> []
            \<and> CHR ''.'' \<notin> set ext)"
  using name_suffix_split[of n] name_suffix_ext[of n] by fastforce

text \<open>
  C5, as the code has it: the \<open>extension\<close> of a probed file is the suffix of its name with
  the separator and with its case unchanged. For every name: when the name is
  \<open>stem.ext\<close> with \<open>stem\<close> and \<open>ext\<close> not empty and no dot in \<open>ext\<close>, the extension is
  \<open>.ext\<close>; for every other name (no dot, a leading dot only, a trailing dot) it is the
  empty string.
\<close>

theorem probe_extension:
  "(path_name file_path = stem @ CHR ''.'' # ext \<and> stem \<noteq> [] \<and> ext \<noteq> []
      \<and> CHR ''.'' \<notin> set ext
     \<longrightarrow> fi_extension (get_file_info file_path (Inr stat)) = Some (CHR ''.'' # ext))
   \<and> (\<not> (\<exists>stem' ext'. path_name file_path = stem' @ CHR ''.'' # ext' \<and> stem' \<noteq> []
             \<and> ext' \<noteq> [] \<and> CHR ''.'' \<notin> set ext')
     \<longrightarrow> fi_extension (get_file_info file_path (Inr stat)) = Some [])"
proof (intro conjI impI)
  assume "path_name file_path = stem @ CHR ''.'' # ext \<and> stem \<noteq> [] \<and> ext \<noteq> []
      \<and> CHR ''.'' \<notin> set ext"
  then show "fi_extension (get_file_info file_path (Inr stat)) = Some (CHR ''.'' # ext)"
    by (simp add: get_file_info_def suffix_def name_suffix_ext)
next
  assume "\<not> (\<exists>stem' ext'. path_name file_path = stem' @ CHR ''.'' # ext' \<and> stem' \<noteq> []
             \<and> ext' \<noteq> [] \<and> CHR ''.'' \<notin> set ext')"
  then have "name_suffix (path_name file_path) = []"
    using name_suffix_empty_iff[of "path_name file_path"] by blast
  then show "fi_extension (get_file_info file_path (Inr stat)) = Some []"
    by (simp add: get_file_info_def suffix_def)
qed

theorem probe_extension_witness:
  "fi_extension (get_file_info (Path ''src/Main.Java'') (regular_file 10)) = Some ''.Java''
   \<and> fi_extension (get_file_info (Path ''src/Makefile'') (regular_file 10)) = Some []
   \<and> fi_extension (get_file_info (Path ''home/.bashrc'') (regular_file 10)) = Some []
   \<and> fi_extension (get_file_info (Path ''home/trail.'') (regular_file 10)) = Some []"
proof -
  let ?st = "\<lparr>st_size = 10, st_isreg = True\<rparr>"
  have n1: "path_name (Path ''src/Main.Java'') = ''Main'' @ CHR ''.'' # ''Java''"
    by code_simp
  have e2: "name_suffix (path_name (Path ''src/Makefile'')) = []" by code_simp
  have e3: "name_suffix (path_name (Path ''home/.bashrc'')) = []" by code_simp
  have e4: "name_suffix (path_name (Path ''home/trail.'')) = []" by code_simp
  note h2 = e2[unfolded name_suffix_empty_iff]
  note h3 = e3[unfolded name_suffix_empty_iff]
  note h4 = e4[unfolded name_suffix_empty_iff]
  have w1: "fi_extension (get_file_info (Path ''src/Main.Java'') (Inr ?st)) = Some ''.Java''"
    using probe_extension[of "Path ''src/Main.Java''" "''Main''" "''Java''" ?st] n1 by simp
  have w2: "fi_extension (get_file_info (Path ''src/Makefile'') (Inr ?st)) = Some []"
    using probe_extension[of "Path ''src/Makefile''" "[]" "[]" ?st] h2 by blast
  have w3: "fi_extension (get_file_info (Path ''home/.bashrc'') (Inr ?st)) = Some []"
    using probe_extension[of "Path ''home/.bashrc''" "[]" "[]" ?st] h3 by blast
  have w4: "fi_extension (get_file_info (Path ''home/trail.'') (Inr ?st)) = Some []"
    using probe_extension[of "Path ''home/trail.''" "[]" "[]" ?st] h4 by blast
  show ?thesis using w1 w2 w3 w4 by (simp add: regular_file_def)
qed

text \<open>
  C5 as stated fails: a file named \<open>X.PY\<close> has the extension \<open>.PY\<close>, not \<open>.py\<close>.
\<close>

theorem probe_extension_counterexample:
  "fi_extension (get_file_info (Path ''X.PY'') (regular_file 0)) = Some ''.PY''
   \<and> ''.PY'' \<noteq> lower ''.PY''"
  by code_simp

section \<open>The analysis as a whole\<close>

lemma dir_inv_root: "dir_inv (Path P) D (str_path (Path P)) []"
  using Path_str_path[OF normal_Path, of P] str_path_not_Nil[OF normal_Path, of P]
  by (simp add: dir_inv_def)

lemma analyze_failed:
  assumes "fs (str_path (Path P)) = Inl e"
  shows "analyze_project_structure fs P D =
           (if e \<in> set IGNORED_ERRNOS
            then Inr (ErrorResult (''Project path '' @ [CHR 0x27] @ P @ [CHR 0x27]
                                   @ '' does not exist''))
            else Inl (OSError e))"
  using assms by (simp add: analyze_project_structure_def path_exists_def Let_def)

lemma analyze_found_file:
  assumes "fs (str_path (Path P)) = Inr (FileNode f st)"
  shows "analyze_project_structure fs P D =
           Inr (ProjectStructure
                  \<lparr>ps_root = str_path (Path P), ps_files = [], ps_directories = [],
                   ps_key_files = [], ps_languages = [], ps_framework_indicators = []\<rparr>)"
  using assms by (simp add: analyze_project_structure_def path_exists_def Let_def)

lemma analyze_found_dir:
  assumes "fs (str_path (Path P)) = Inr (DirNode d entries)"
  shows "analyze_project_structure fs P D =
           (case walk (Path P) D (str_path (Path P)) entries
                   \<lparr>ps_root = str_path (Path P), ps_files = [], ps_directories = [],
                    ps_key_files = [], ps_languages = [], ps_framework_indicators = []\<rparr> of
              Inl e \<Rightarrow> Inl e
            | Inr s' \<Rightarrow> Inr (ProjectStructure s'))"
  using assms
  by (simp add: analyze_project_structure_def path_exists_def Let_def del: walk.simps)

lemma analyze_ok:
  assumes "fs (str_path (Path P)) = Inr node" "wf_root node"
  shows "\<exists>s. analyze_project_structure fs P D = Inr (ProjectStructure s)
           \<and> list_all (entry_ok (Path P) D) (ps_files s)"
proof (cases node)
  case (FileNode f st)
  then show ?thesis using analyze_found_file[of fs P f st D] assms(1) by simp
next
  case (DirNode d entries)
  let ?s0 = "\<lparr>ps_root = str_path (Path P), ps_files = [], ps_directories = [],
              ps_key_files = [], ps_languages = [], ps_framework_indicators = []\<rparr>"
  have wf: "list_all wf_node entries" using assms(2) DirNode by (simp add: wf_root_def)
  obtain s' where "walk (Path P) D (str_path (Path P)) entries ?s0 = Inr s'"
    "list_all (entry_ok (Path P) D) (ps_files s')"
    using walk_ok(1)[OF normal_Path wf dir_inv_root, where s = ?s0 and D = D]
    by fastforce
  then show ?thesis using analyze_found_dir[of fs P d entries D] assms(1) DirNode
    by (simp del: walk.simps)
qed

lemma analyze_preserves:
  assumes step: "\<And>root f s. I s \<Longrightarrow> I (process_file root f s)"
    and init: "I \<lparr>ps_root = str_path (Path P), ps_files = [], ps_directories = [],
                 ps_key_files = [], ps_languages = [], ps_framework_indicators = []\<rparr>"
    and res: "analyze_project_structure fs P D = Inr (ProjectStructure s)"
  shows "I s"
proof (cases "fs (str_path (Path P))")
  case (Inl e)
  then show ?thesis using res analyze_failed[of fs P e D] by (simp split: if_splits)
next
  case (Inr node)
  show ?thesis
  proof (cases node)
    case (FileNode f st)
    then show ?thesis using res Inr init analyze_found_file[of fs P f st D] by simp
  next
    case (DirNode d entries)
    then obtain s' where
      "walk (Path P) D (str_path (Path P)) entries
         \<lparr>ps_root = str_path (Path P), ps_files = [], ps_directories = [],
          ps_key_files = [], ps_languages = [], ps_framework_indicators = []\<rparr> = Inr s'"
      "s' = s"
      using res Inr analyze_found_dir[of fs P d entries D]
      by (auto simp del: walk.simps split: sum.splits)
    then show ?thesis using walk_preserves(1)[where I = I, OF step init] by blast
  qed
qed

lemma analyze_lang_inv:
  "analyze_project_structure fs P D = Inr (ProjectStructure s) \<Longrightarrow> lang_inv s"
  by (rule analyze_preserves[where I = lang_inv, OF process_file_lang_inv])
     (simp_all add: lang_inv_def)

lemma analyze_root:
  assumes "analyze_project_structure fs P D = Inr (ProjectStructure s)"
  shows "ps_root s = str_path (Path P)"
  by (rule analyze_preserves[where I = "\<lambda>s. ps_root s = str_path (Path P)", OF _ _ assms])
     (simp_all add: process_file_root)

lemma entry_ok_relative:
  assumes "normal_path R" "entry_ok R D e"
  shows "\<exists>rel. relative_to (Path (fi_path e)) R = Inr \<lparr>pp_root = [], pp_parts = rel @ [fi_name e]\<rparr>
           \<and> int (length rel) \<le> D
           \<and> list_all (\<lambda>x. \<not> should_ignore x) (rel @ [fi_name e])
           \<and> \<not> should_ignore (fi_path e)"
proof -
  from assms(2) obtain rel f where
    p: "fi_path e = str_path \<lparr>pp_root = pp_root R, pp_parts = pp_parts R @ rel @ [f]\<rparr>"
    and f: "fi_name e = f" and d: "int (length rel) \<le> D"
    and v: "list_all valid_name (rel @ [f])"
    and i: "list_all (\<lambda>x. \<not> should_ignore x) (rel @ [f])"
    unfolding entry_ok_def by blast
  let ?X = "\<lparr>pp_root = pp_root R, pp_parts = pp_parts R @ rel @ [f]\<rparr>"
  have r: "pp_root ?X \<in> set [[], ''/'', ''//'']" using assms(1) by (simp add: normal_path_def)
  have n: "normal_path ?X" using assms(1) v by (simp add: normal_path_def)
  have "Path (fi_path e) = ?X" using Path_str_path[OF n] p by simp
  then have rt: "relative_to (Path (fi_path e)) R = Inr \<lparr>pp_root = [], pp_parts = rel @ [f]\<rparr>"
    by (simp add: relative_to_def)
  have "should_ignore (fi_path e) = should_ignore f"
    using should_ignore_str_path[OF r, of "pp_parts R @ rel" f] v p by simp
  then show ?thesis using rt f d i by auto
qed

section \<open>Claims on the analysis\<close>

text \<open>
  C1, as the code has it: the bound is on the depth of the directory that holds the
  file. For an existing root \<open>P\<close> with valid entry names and a depth bound \<open>D\<close>, the
  analysis returns a structure, and the path of every entry of \<open>files\<close>, taken relative
  to \<open>P\<close>, has at most \<open>D + 1\<close> components.
\<close>

theorem depth_bound:
  assumes "fs (str_path (Path P)) = Inr node" "wf_root node"
  shows "\<exists>s. analyze_project_structure fs P D = Inr (ProjectStructure s)
           \<and> list_all (\<lambda>e. \<exists>rel. relative_to (Path (fi_path e)) (Path P) = Inr rel
                               \<and> int (length (pp_parts rel)) \<le> D + 1) (ps_files s)"
proof -
  obtain s where s: "analyze_project_structure fs P D = Inr (ProjectStructure s)"
    and ok: "list_all (entry_ok (Path P) D) (ps_files s)"
    using analyze_ok[of fs P node, OF assms] by blast
  have "\<exists>rel. relative_to (Path (fi_path e)) (Path P) = Inr rel
              \<and> int (length (pp_parts rel)) \<le> D + 1"
    if "entry_ok (Path P) D e" for e
    using entry_ok_relative[OF normal_Path that] by fastforce
  then show ?thesis using s ok by (auto simp: list_all_iff)
qed

theorem depth_bound_witness:
  "fs_nested (str_path (Path ''proj''))
     = Inr (DirNode ''proj'' [DirNode ''a'' [FileNode ''f'' (regular_file 1)]])
   \<and> wf_root (DirNode ''proj'' [DirNode ''a'' [FileNode ''f'' (regular_file 1)]])
   \<and> (\<exists>s. analyze_project_structure fs_nested ''proj'' 1 = Inr (ProjectStructure s)
           \<and> list_all (\<lambda>e. \<exists>rel. relative_to (Path (fi_path e)) (Path ''proj'') = Inr rel
                               \<and> int (length (pp_parts rel)) \<le> 1 + 1) (ps_files s))"
proof -
  have h1: "fs_nested (str_path (Path ''proj''))
     = Inr (DirNode ''proj'' [DirNode ''a'' [FileNode ''f'' (regular_file 1)]])"
    by code_simp
  have h2: "wf_root (DirNode ''proj'' [DirNode ''a'' [FileNode ''f'' (regular_file 1)]])"
    by code_simp
  show ?thesis using h1 h2 depth_bound[of fs_nested "''proj''" _ 1, OF h1 h2] by blast
qed

text \<open>
  C1 as stated fails: with \<open>max_depth = 1\<close> the file \<open>proj/a/f\<close>, whose path relative to
  the root has two components, is in \<open>files\<close>.
\<close>

theorem depth_bound_counterexample:
  "analyze_project_structure fs_nested ''proj'' 1 =
     Inr (ProjectStructure
       \<lparr>ps_root = ''proj'',
        ps_files = [\<lparr>fi_name = ''f'', fi_path = ''proj/a/f'', fi_size = Some 1,
                     fi_is_file = Some True, fi_extension = Some [], fi_error = None\<rparr>],
        ps_directories = [], ps_key_files = [], ps_languages = [],
        ps_framework_indicators = []\<rparr>)
   \<and> relative_to (Path ''proj/a/f'') (Path ''proj'')
       = Inr \<lparr>pp_root = [], pp_parts = [''a'', ''f'']\<rparr>"
  by code_simp

text \<open>
  C3, as the code has it: \<open>languages\<close> has no duplicates and holds exactly the tags
  (the lowercased extension without its dot) of the allowlisted extensions among the
  entries of \<open>files\<close>, whether the probe of the file succeeded or failed.
\<close>

theorem languages_exact:
  assumes "analyze_project_structure fs P D = Inr (ProjectStructure s)"
  shows "distinct (ps_languages s)
         \<and> set (ps_languages s) = {t. \<exists>e \<in> set (ps_files s). language_tag (fi_name e) = Some t}"
  using analyze_lang_inv[OF assms] by (simp add: lang_inv_def)

theorem languages_exact_witness:
  "analyze_project_structure fs_ignored ''proj'' 3 =
     Inr (ProjectStructure
       \<lparr>ps_root = ''proj'',
        ps_files = [\<lparr>fi_name = ''index.js'', fi_path = ''proj/src/index.js'',
                     fi_size = Some 3, fi_is_file = Some True,
                     fi_extension = Some ''.js'', fi_error = None\<rparr>],
        ps_directories = [], ps_key_files = [], ps_languages = [''js''],
        ps_framework_indicators = []\<rparr>)
   \<and> distinct [''js'']
   \<and> set [''js''] = {t. language_tag ''index.js'' = Some t}"
proof -
  have h: "analyze_project_structure fs_ignored ''proj'' 3 =
     Inr (ProjectStructure
       \<lparr>ps_root = ''proj'',
        ps_files = [\<lparr>fi_name = ''index.js'', fi_path = ''proj/src/index.js'',
                     fi_size = Some 3, fi_is_file = Some True,
                     fi_extension = Some ''.js'', fi_error = None\<rparr>],
        ps_directories = [], ps_key_files = [], ps_languages = [''js''],
        ps_framework_indicators = []\<rparr>)"
    by code_simp
  show ?thesis using h languages_exact[OF h] by simp
qed

text \<open>
  C3 as stated fails: \<open>a.py\<close> is a dangling link, its probe fails, and it still gives
  the tag \<open>py\<close>.
\<close>

theorem languages_exact_counterexample:
  "analyze_project_structure fs_dangling ''proj'' 3 =
     Inr (ProjectStructure
       \<lparr>ps_root = ''proj'',
        ps_files = [\<lparr>fi_name = ''a.py'', fi_path = ''proj/a.py'', fi_size = None,
                     fi_is_file = None, fi_extension = None,
                     fi_error = Some ''Access denied''\<rparr>],
        ps_directories = [], ps_key_files = [], ps_languages = [''py''],
        ps_framework_indicators = []\<rparr>)"
  by code_simp

text \<open>
  C4, as the code has it: the root itself is never tested. For an existing root \<open>P\<close>
  with valid entry names, \<open>scan_project\<close> returns a structure in which no entry of
  \<open>files\<close> has a base name matching an ignore pattern, and no component of its path
  relative to \<open>P\<close> (the directories below the root down to the file, and the file)
  matches one.
\<close>

theorem ignored_excluded:
  assumes "fs (str_path (Path P)) = Inr node" "wf_root node"
  shows "\<exists>s. scan_project fs P = Inr (ProjectStructure s)
           \<and> list_all (\<lambda>e. \<not> should_ignore (fi_path e)
                           \<and> (\<exists>rel. relative_to (Path (fi_path e)) (Path P) = Inr rel
                                  \<and> list_all (\<lambda>seg. \<not> should_ignore seg) (pp_parts rel)))
                 (ps_files s)"
proof -
  obtain s where s: "analyze_project_structure fs P 3 = Inr (ProjectStructure s)"
    and ok: "list_all (entry_ok (Path P) 3) (ps_files s)"
    using analyze_ok[of fs P node, OF assms] by blast
  have "\<not> should_ignore (fi_path e)
        \<and> (\<exists>rel. relative_to (Path (fi_path e)) (Path P) = Inr rel
               \<and> list_all (\<lambda>seg. \<not> should_ignore seg) (pp_parts rel))"
    if "entry_ok (Path P) 3 e" for e
    using entry_ok_relative[OF normal_Path that] by fastforce
  then show ?thesis using s ok by (auto simp: list_all_iff scan_project_def)
qed

theorem ignored_excluded_witness:
  "fs_ignored (str_path (Path ''proj''))
     = Inr (DirNode ''proj'' [DirNode ''.git'' [FileNode ''config'' (regular_file 1)],
                              FileNode ''x.pyc'' (regular_file 2),
                              DirNode ''src'' [FileNode ''index.js'' (regular_file 3)]])
   \<and> wf_root (DirNode ''proj'' [DirNode ''.git'' [FileNode ''config'' (regular_file 1)],
                                FileNode ''x.pyc'' (regular_file 2),
                                DirNode ''src'' [FileNode ''index.js'' (regular_file 3)]])
   \<and> (\<exists>s. scan_project fs_ignored ''proj'' = Inr (ProjectStructure s)
           \<and> list_all (\<lambda>e. \<not> should_ignore (fi_path e)
                           \<and> (\<exists>rel. relative_to (Path (fi_path e)) (Path ''proj'') = Inr rel
                                  \<and> list_all (\<lambda>seg. \<not> should_ignore seg) (pp_parts rel)))
                 (ps_files s))"
proof -
  let ?n = "DirNode ''proj'' [DirNode ''.git'' [FileNode ''config'' (regular_file 1)],
                              FileNode ''x.pyc'' (regular_file 2),
                              DirNode ''src'' [FileNode ''index.js'' (regular_file 3)]]"
  have h1: "fs_ignored (str_path (Path ''proj'')) = Inr ?n" by code_simp
  have h2: "wf_root ?n" by code_simp
  show ?thesis using h1 h2 ignored_excluded[of fs_ignored "''proj''", OF h1 h2] by blast
qed

text \<open>
  C4 as stated fails: scanning a root named \<open>build\<close>, a name that matches an ignore
  pattern, returns the file \<open>build/main.go\<close>, a descendant of that directory.
\<close>

theorem ignored_excluded_counterexample:
  "should_ignore ''build''
   \<and> map_sum id (map fi_path \<circ> ps_files_of) (scan_project fs_build ''build'')
       = Inr [''build/main.go'']"
  by code_simp




section \<open>Claims on the generated document\<close>

lemma py_in_iff: "py_in w s \<longleftrightarrow> (\<exists>a b. s = a @ w @ b)"
proof
  show "py_in w s \<Longrightarrow> \<exists>a b. s = a @ w @ b"
  proof (induction s)
    case Nil
    then show ?case by simp
  next
    case (Cons c cs)
    show ?case
    proof (cases "take (length w) (c # cs) = w")
      case True
      then have "c # cs = [] @ w @ drop (length w) (c # cs)"
        by (metis append_Nil append_take_drop_id)
      then show ?thesis by blast
    next
      case False
      then obtain a b where "cs = a @ w @ b" using Cons by auto
      then have "c # cs = (c # a) @ w @ b" by simp
      then show ?thesis by blast
    qed
  qed
next
  show "\<exists>a b. s = a @ w @ b \<Longrightarrow> py_in w s" using py_in_append by auto
qed

lemma py_in_embed: "py_in w p \<Longrightarrow> py_in w (a @ p @ b)"
proof -
  assume "py_in w p"
  then obtain x y where "p = x @ w @ y" using py_in_iff by blast
  then have "a @ p @ b = (a @ x) @ w @ (y @ b)" by simp
  then show ?thesis using py_in_append by metis
qed

lemma concat_repr_embed:
  assumes "py_in w p" "concat (map (repr_char q) w) = w"
  shows "py_in w (concat (map (repr_char q) p))"
proof -
  obtain x y where "p = x @ w @ y" using assms(1) py_in_iff by blast
  then have "concat (map (repr_char q) p)
      = concat (map (repr_char q) x) @ w @ concat (map (repr_char q) y)"
    using assms(2) by simp
  then show ?thesis using py_in_append by metis
qed

lemma py_repr_embed:
  assumes "py_in w p"
    and "concat (map (repr_char (CHR 0x27)) w) = w" "concat (map (repr_char (CHR 0x22)) w) = w"
  shows "py_in w (py_repr p)"
proof -
  let ?q = "if CHR 0x27 \<in> set p \<and> CHR 0x22 \<notin> set p then CHR 0x22 else CHR 0x27"
  have "py_in w (concat (map (repr_char ?q) p))"
    using concat_repr_embed[OF assms(1)] assms(2,3) by simp
  then have "py_in w ([?q] @ concat (map (repr_char ?q) p) @ [?q])" by (rule py_in_embed)
  then show ?thesis by (simp add: py_repr_def Let_def)
qed

lemma py_join_member: "x \<in> set xs \<Longrightarrow> \<exists>a b. py_join sep xs = a @ x @ b"
proof (induction sep xs rule: py_join.induct)
  case (1 sep)
  then show ?case by simp
next
  case (2 sep y)
  then have "py_join sep [y] = [] @ x @ []" by simp
  then show ?case by blast
next
  case (3 sep y z zs)
  show ?case
  proof (cases "x = y")
    case True
    then have "py_join sep (y # z # zs) = [] @ x @ (sep @ py_join sep (z # zs))" by simp
    then show ?thesis by blast
  next
    case False
    then obtain a b where "py_join sep (z # zs) = a @ x @ b" using 3 by auto
    then have "py_join sep (y # z # zs) = (y @ sep @ a) @ x @ b" by simp
    then show ?thesis by blast
  qed
qed

lemma py_str_dict_embed:
  assumes "(c, p) \<in> set kf" "py_in w p"
    and "concat (map (repr_char (CHR 0x27)) w) = w" "concat (map (repr_char (CHR 0x22)) w) = w"
  shows "py_in w (py_str_dict kf)"
proof -
  let ?item = "\<lambda>(k, v). py_repr k @ '': '' @ py_repr v"
  have "?item (c, p) \<in> set (map ?item kf)" using assms(1) by force
  then obtain a b where j: "py_join '', '' (map ?item kf) = a @ ?item (c, p) @ b"
    using py_join_member by blast
  have "py_in w (py_repr p)" using py_repr_embed[OF assms(2,3,4)] .
  then have "py_in w ((''{'' @ a @ py_repr c @ '': '') @ py_repr p @ (b @ ''}''))"
    by (rule py_in_embed)
  then show ?thesis using j by (simp add: py_str_dict_def)
qed

lemma plain_words:
  "concat (map (repr_char (CHR 0x27)) ''package.json'') = ''package.json''"
  "concat (map (repr_char (CHR 0x22)) ''package.json'') = ''package.json''"
  "concat (map (repr_char (CHR 0x27)) ''requirements.txt'') = ''requirements.txt''"
  "concat (map (repr_char (CHR 0x22)) ''requirements.txt'') = ''requirements.txt''"
  "concat (map (repr_char (CHR 0x27)) ''Cargo.toml'') = ''Cargo.toml''"
  "concat (map (repr_char (CHR 0x22)) ''Cargo.toml'') = ''Cargo.toml''"
  by code_simp+

lemma generate_readme_success:
  assumes "analyze_project_structure fs P 3 = Inr (ProjectStructure s)"
    and "project_structure_section s = Inr sec"
  shows "generate_readme fs P n d =
           Inr (title_section P n @ description_section d
                @ technologies_section (ps_languages s)
                @ installation_section (ps_key_files s) @ usage_section @ sec
                @ contributing_section @ license_section (ps_key_files s))"
  using assms by (simp add: generate_readme_def)

lemma generate_readme_Inr:
  assumes "analyze_project_structure fs P 3 = Inr (ProjectStructure s)"
    and "generate_readme fs P n d = Inr doc"
  shows "\<exists>sec. project_structure_section s = Inr sec
           \<and> doc = title_section P n @ description_section d
                @ technologies_section (ps_languages s)
                @ installation_section (ps_key_files s) @ usage_section @ sec
                @ contributing_section @ license_section (ps_key_files s)"
  using assms by (auto simp: generate_readme_def split: sum.splits)

text \<open>
  C9: an empty \<open>project_name\<close> is treated as an absent one: the document is the same,
  and its title is \<open># \<close> followed by the last component of \<open>project_path\<close>, which is
  empty for the path \<open>.\<close>.
\<close>

theorem empty_name_as_absent:
  "generate_readme fs P (Some []) d = generate_readme fs P None d
   \<and> title_section P (Some []) = ''# '' @ path_name (Path P) @ nl @ nl
   \<and> (analyze_project_structure fs P 3 = Inr (ProjectStructure s)
        \<and> generate_readme fs P (Some []) d = Inr doc
      \<longrightarrow> (\<exists>rest. doc = ''# '' @ path_name (Path P) @ nl @ nl @ rest))
   \<and> path_name (Path ''.'') = []"
proof (intro conjI impI)
  show t: "title_section P (Some []) = ''# '' @ path_name (Path P) @ nl @ nl"
    by (simp add: title_section_def)
  have "title_section P (Some []) = title_section P None"
    by (simp add: title_section_def)
  then show "generate_readme fs P (Some []) d = generate_readme fs P None d"
    by (auto simp: generate_readme_def split: sum.splits analysis.splits)
  show "path_name (Path ''.'') = []" by code_simp
  assume "analyze_project_structure fs P 3 = Inr (ProjectStructure s)
          \<and> generate_readme fs P (Some []) d = Inr doc"
  then obtain sec where
    "doc = title_section P (Some []) @ description_section d
           @ technologies_section (ps_languages s)
           @ installation_section (ps_key_files s) @ usage_section @ sec
           @ contributing_section @ license_section (ps_key_files s)"
    using generate_readme_Inr by blast
  then show "\<exists>rest. doc = ''# '' @ path_name (Path P) @ nl @ nl @ rest"
    unfolding t by simp
qed

theorem empty_name_as_absent_witness:
  "generate_readme fs_nested ''proj'' (Some []) None = generate_readme fs_nested ''proj'' None None
   \<and> (\<exists>s. analyze_project_structure fs_nested ''proj'' 3 = Inr (ProjectStructure s))
   \<and> (\<exists>rest. generate_readme fs_nested ''proj'' (Some []) None
               = Inr (''# '' @ ''proj'' @ nl @ nl @ rest))"
proof -
  have "case analyze_project_structure fs_nested ''proj'' 3 of
          Inr (ProjectStructure s) \<Rightarrow> True | _ \<Rightarrow> False"
    by code_simp
  then obtain s where a: "analyze_project_structure fs_nested ''proj'' 3 = Inr (ProjectStructure s)"
    by (auto split: sum.splits analysis.splits)
  have "case generate_readme fs_nested ''proj'' (Some []) None of Inr doc \<Rightarrow> True | _ \<Rightarrow> False"
    by code_simp
  then obtain doc where g: "generate_readme fs_nested ''proj'' (Some []) None = Inr doc"
    by (auto split: sum.splits)
  have n: "path_name (Path ''proj'') = ''proj''" by code_simp
  note T = empty_name_as_absent[of fs_nested "''proj''" None s doc]
  have r: "\<exists>rest. doc = ''# '' @ path_name (Path ''proj'') @ nl @ nl @ rest"
    using T a g by blast
  show ?thesis
  proof (intro conjI)
    show "generate_readme fs_nested ''proj'' (Some []) None
          = generate_readme fs_nested ''proj'' None None"
      using T by blast
    show "\<exists>s. analyze_project_structure fs_nested ''proj'' 3 = Inr (ProjectStructure s)"
      using a by blast
    show "\<exists>rest. generate_readme fs_nested ''proj'' (Some []) None
               = Inr (''# '' @ ''proj'' @ nl @ nl @ rest)"
      using r unfolding g n by simp
  qed
qed

text \<open>
  C2, as the code has it: the Installation block is chosen on the printed form of the
  whole \<open>key_files\<close> dictionary, by the first that it contains of \<open>package.json\<close>,
  \<open>requirements.txt\<close> and \<open>Cargo.toml\<close>: the npm block, else the pip block, else the
  cargo block, else the placeholder. So a path recorded under any category that
  contains \<open>package.json\<close> gives the npm block and not the cargo block, whatever else is
  recorded; failing that, one that contains \<open>requirements.txt\<close> gives the pip block;
  failing both, one that contains \<open>Cargo.toml\<close> gives the cargo block. The block stands
  in the document between the Installation heading and the Usage heading.
\<close>

theorem installation_choice:
  "(py_in ''package.json'' (py_str_dict kf) \<longrightarrow> install_block kf = npm_block)
   \<and> (\<not> py_in ''package.json'' (py_str_dict kf) \<and> py_in ''requirements.txt'' (py_str_dict kf)
      \<longrightarrow> install_block kf = pip_block)
   \<and> (\<not> py_in ''package.json'' (py_str_dict kf) \<and> \<not> py_in ''requirements.txt'' (py_str_dict kf)
        \<and> py_in ''Cargo.toml'' (py_str_dict kf)
      \<longrightarrow> install_block kf = cargo_block)
   \<and> (\<not> py_in ''package.json'' (py_str_dict kf) \<and> \<not> py_in ''requirements.txt'' (py_str_dict kf)
        \<and> \<not> py_in ''Cargo.toml'' (py_str_dict kf)
      \<longrightarrow> install_block kf = placeholder_block)
   \<and> ((c, p) \<in> set kf \<and> py_in ''package.json'' p
      \<longrightarrow> install_block kf = npm_block \<and> install_block kf \<noteq> cargo_block)
   \<and> (\<not> py_in ''package.json'' (py_str_dict kf)
        \<and> (c, p) \<in> set kf \<and> py_in ''requirements.txt'' p
      \<longrightarrow> install_block kf = pip_block)
   \<and> (\<not> py_in ''package.json'' (py_str_dict kf) \<and> \<not> py_in ''requirements.txt'' (py_str_dict kf)
        \<and> (c, p) \<in> set kf \<and> py_in ''Cargo.toml'' p
      \<longrightarrow> install_block kf = cargo_block)
   \<and> (analyze_project_structure fs P 3 = Inr (ProjectStructure s)
        \<and> generate_readme fs P n d = Inr doc
      \<longrightarrow> (\<exists>pre post. doc = pre @ ''## Installation'' @ nl @ nl
                             @ install_block (ps_key_files s) @ ''## Usage'' @ post))"
proof (intro conjI impI)
  assume "py_in ''package.json'' (py_str_dict kf)"
  then show "install_block kf = npm_block" by (simp add: install_block_def)
next
  assume "\<not> py_in ''package.json'' (py_str_dict kf) \<and> py_in ''requirements.txt'' (py_str_dict kf)"
  then show "install_block kf = pip_block" by (simp add: install_block_def)
next
  assume "\<not> py_in ''package.json'' (py_str_dict kf) \<and> \<not> py_in ''requirements.txt'' (py_str_dict kf)
        \<and> py_in ''Cargo.toml'' (py_str_dict kf)"
  then show "install_block kf = cargo_block" by (simp add: install_block_def)
next
  assume "\<not> py_in ''package.json'' (py_str_dict kf) \<and> \<not> py_in ''requirements.txt'' (py_str_dict kf)
        \<and> \<not> py_in ''Cargo.toml'' (py_str_dict kf)"
  then show "install_block kf = placeholder_block" by (simp add: install_block_def)
next
  assume a: "(c, p) \<in> set kf \<and> py_in ''package.json'' p"
  then have "py_in ''package.json'' (py_str_dict kf)"
    using py_str_dict_embed[OF _ _ plain_words(1,2)] by blast
  then show npm: "install_block kf = npm_block" by (simp add: install_block_def)
  have "npm_block \<noteq> cargo_block" by (simp add: npm_block_def cargo_block_def)
  then show "install_block kf \<noteq> cargo_block" using npm by simp
next
  assume a: "\<not> py_in ''package.json'' (py_str_dict kf)
        \<and> (c, p) \<in> set kf \<and> py_in ''requirements.txt'' p"
  then have "py_in ''requirements.txt'' (py_str_dict kf)"
    using py_str_dict_embed[OF _ _ plain_words(3,4)] by blast
  then show "install_block kf = pip_block" using a by (simp add: install_block_def)
next
  assume a: "\<not> py_in ''package.json'' (py_str_dict kf) \<and> \<not> py_in ''requirements.txt'' (py_str_dict kf)
        \<and> (c, p) \<in> set kf \<and> py_in ''Cargo.toml'' p"
  then have "py_in ''Cargo.toml'' (py_str_dict kf)"
    using py_str_dict_embed[OF _ _ plain_words(5,6)] by blast
  then show "install_block kf = cargo_block" using a by (simp add: install_block_def)
next
  assume "analyze_project_structure fs P 3 = Inr (ProjectStructure s)
        \<and> generate_readme fs P n d = Inr doc"
  then obtain sec where
    doc: "doc = title_section P n @ description_section d
           @ technologies_section (ps_languages s)
           @ installation_section (ps_key_files s) @ usage_section @ sec
           @ contributing_section @ license_section (ps_key_files s)"
    using generate_readme_Inr by blast
  let ?pre = "title_section P n @ description_section d @ technologies_section (ps_languages s)"
  let ?post = "nl @ nl @ ''Describe how to use your project here.'' @ nl @ nl @ sec
               @ contributing_section @ license_section (ps_key_files s)"
  have "doc = ?pre @ ''## Installation'' @ nl @ nl
                @ install_block (ps_key_files s) @ ''## Usage'' @ ?post"
    unfolding doc by (simp add: installation_section_def usage_section_def)
  then show "\<exists>pre post. doc = pre @ ''## Installation'' @ nl @ nl
                             @ install_block (ps_key_files s) @ ''## Usage'' @ post"
    by blast
qed

theorem installation_choice_witness:
  "install_block [(''config'', ''proj/package.json''), (''readme'', ''proj/Cargo.toml'')] = npm_block
   \<and> install_block [(''config'', ''proj/package.json''), (''readme'', ''proj/Cargo.toml'')]
       \<noteq> cargo_block
   \<and> install_block [(''config'', ''proj/requirements.txt'')] = pip_block
   \<and> install_block [(''config'', ''proj/Cargo.toml'')] = cargo_block
   \<and> install_block [(''readme'', ''proj/README.md'')] = placeholder_block
   \<and> analyze_project_structure fs_npm_last ''proj'' 3 =
       Inr (ProjectStructure
         \<lparr>ps_root = ''proj'',
          ps_files = [\<lparr>fi_name = ''Cargo.toml'', fi_path = ''proj/Cargo.toml'',
                       fi_size = Some 3, fi_is_file = Some True,
                       fi_extension = Some ''.toml'', fi_error = None\<rparr>,
                      \<lparr>fi_name = ''package.json'', fi_path = ''proj/package.json'',
                       fi_size = Some 2, fi_is_file = Some True,
                       fi_extension = Some ''.json'', fi_error = None\<rparr>],
          ps_directories = [], ps_key_files = [(''config'', ''proj/package.json'')],
          ps_languages = [], ps_framework_indicators = []\<rparr>)
   \<and> (\<exists>pre post. generate_readme fs_npm_last ''proj'' None None
         = Inr (pre @ ''## Installation'' @ nl @ nl @ npm_block @ ''## Usage'' @ post))"
proof -
  let ?s = "\<lparr>ps_root = ''proj'',
          ps_files = [\<lparr>fi_name = ''Cargo.toml'', fi_path = ''proj/Cargo.toml'',
                       fi_size = Some 3, fi_is_file = Some True,
                       fi_extension = Some ''.toml'', fi_error = None\<rparr>,
                      \<lparr>fi_name = ''package.json'', fi_path = ''proj/package.json'',
                       fi_size = Some 2, fi_is_file = Some True,
                       fi_extension = Some ''.json'', fi_error = None\<rparr>],
          ps_directories = [], ps_key_files = [(''config'', ''proj/package.json'')],
          ps_languages = [], ps_framework_indicators = []\<rparr>"
  let ?k1 = "[(''config'', ''proj/package.json''), (''readme'', ''proj/Cargo.toml'')]"
  let ?k2 = "[(''config'', ''proj/requirements.txt'')]"
  let ?k3 = "[(''config'', ''proj/Cargo.toml'')]"
  let ?k4 = "[(''readme'', ''proj/README.md'')]"
  have a: "analyze_project_structure fs_npm_last ''proj'' 3 = Inr (ProjectStructure ?s)"
    by code_simp
  have "case generate_readme fs_npm_last ''proj'' None None of Inr doc \<Rightarrow> True | _ \<Rightarrow> False"
    by code_simp
  then obtain doc where g: "generate_readme fs_npm_last ''proj'' None None = Inr doc"
    by (auto split: sum.splits)
  have p1: "py_in ''package.json'' ''proj/package.json''" by code_simp
  have p2: "py_in ''requirements.txt'' ''proj/requirements.txt''" by code_simp
  have p3: "py_in ''Cargo.toml'' ''proj/Cargo.toml''" by code_simp
  have s1: "py_in ''package.json'' (py_str_dict ?k1)" by code_simp
  have s2: "\<not> py_in ''package.json'' (py_str_dict ?k2)"
    "py_in ''requirements.txt'' (py_str_dict ?k2)"
    by code_simp+
  have s3: "\<not> py_in ''package.json'' (py_str_dict ?k3)"
    "\<not> py_in ''requirements.txt'' (py_str_dict ?k3)"
    "py_in ''Cargo.toml'' (py_str_dict ?k3)"
    by code_simp+
  have s4: "\<not> py_in ''package.json'' (py_str_dict ?k4)"
    "\<not> py_in ''requirements.txt'' (py_str_dict ?k4)"
    "\<not> py_in ''Cargo.toml'' (py_str_dict ?k4)"
    by code_simp+
  have m1: "(''config'', ''proj/package.json'') \<in> set ?k1" by simp
  have m2: "(''config'', ''proj/requirements.txt'') \<in> set ?k2" by simp
  have m3: "(''config'', ''proj/Cargo.toml'') \<in> set ?k3" by simp
  have m5: "(''config'', ''proj/package.json'') \<in> set (ps_key_files ?s)" by simp
  have b1: "install_block ?k1 = npm_block \<and> install_block ?k1 \<noteq> cargo_block"
    using installation_choice[of ?k1 "''config''" "''proj/package.json''"] p1 m1
    by blast
  have b2: "install_block ?k2 = pip_block"
    using installation_choice[of ?k2 "''config''" "''proj/requirements.txt''"] p2 s2 m2
    by blast
  have b3: "install_block ?k3 = cargo_block"
    using installation_choice[of ?k3 "''config''" "''proj/Cargo.toml''"] p3 s3 m3
    by blast
  have b4: "install_block ?k4 = placeholder_block"
    using installation_choice[of ?k4] s4 by blast
  have "\<exists>pre post. doc = pre @ ''## Installation'' @ nl @ nl
                          @ install_block (ps_key_files ?s) @ ''## Usage'' @ post"
    using installation_choice[of _ _ _ fs_npm_last "''proj''" ?s None None doc] a g by blast
  moreover have "install_block (ps_key_files ?s) = npm_block"
    using installation_choice[of "ps_key_files ?s" "''config''" "''proj/package.json''"] p1 m5
    by blast
  ultimately have b5: "\<exists>pre post. generate_readme fs_npm_last ''proj'' None None
         = Inr (pre @ ''## Installation'' @ nl @ nl @ npm_block @ ''## Usage'' @ post)"
    unfolding g by simp
  show ?thesis using b1 b2 b3 b4 a b5 by blast
qed

text \<open>
  C2 as stated fails. With \<open>package.json\<close> listed before \<open>Cargo.toml\<close>, the \<open>config\<close> key
  ends as the path of \<open>Cargo.toml\<close>, and the document has the cargo block and no npm
  block. And a project with no configuration file at all, in a directory named
  \<open>package.json.d\<close>, gets the npm block from the path recorded under \<open>readme\<close>.
\<close>

theorem installation_choice_counterexample:
  "map_sum id ps_key_files_of (analyze_project_structure fs_two_configs ''proj'' 3)
     = Inr [(''config'', ''proj/Cargo.toml'')]
   \<and> map_sum id (py_in ''cargo build'') (generate_readme fs_two_configs ''proj'' None None)
     = Inr True
   \<and> map_sum id (py_in ''npm install'') (generate_readme fs_two_configs ''proj'' None None)
     = Inr False
   \<and> map_sum id ps_key_files_of (analyze_project_structure fs_named ''package.json.d'' 3)
     = Inr [(''readme'', ''package.json.d/README.md'')]
   \<and> map_sum id (py_in ''npm install'') (generate_readme fs_named ''package.json.d'' None None)
     = Inr True"
  by code_simp

lemma structure_lines_ok:
  "list_all (\<lambda>e. \<exists>r. relative_to (Path (fi_path e)) (Path root) = Inr r) es \<Longrightarrow>
   \<exists>lines. structure_lines root es = Inr (concat (map (\<lambda>l. l @ nl) lines))
     \<and> list_all2 (\<lambda>l e. \<exists>r. relative_to (Path (fi_path e)) (Path root) = Inr r \<and> l = str_path r)
          lines (filter get_is_file es)"
proof (induction es)
  case Nil
  then show ?case by simp
next
  case (Cons e es)
  then obtain lines where
    l: "structure_lines root es = Inr (concat (map (\<lambda>l. l @ nl) lines))"
    and a: "list_all2 (\<lambda>l e. \<exists>r. relative_to (Path (fi_path e)) (Path root) = Inr r \<and> l = str_path r)
          lines (filter get_is_file es)"
    by auto
  show ?case
  proof (cases "get_is_file e")
    case True
    obtain r where r: "relative_to (Path (fi_path e)) (Path root) = Inr r"
      using Cons.prems by auto
    have "structure_lines root (e # es) = Inr (concat (map (\<lambda>l. l @ nl) (str_path r # lines)))"
      using True r l by simp
    moreover have "list_all2 (\<lambda>l e. \<exists>r. relative_to (Path (fi_path e)) (Path root) = Inr r \<and> l = str_path r)
          (str_path r # lines) (filter get_is_file (e # es))"
      using True r a by simp
    ultimately show ?thesis by blast
  next
    case False
    then show ?thesis using l a by auto
  qed
qed

text \<open>
  C6, as the code has it: the Project Structure section is emitted if and only if
  \<open>files\<close> has at most 20 entries, and then it lists, for every entry of \<open>files\<close> except
  those probed as something other than a regular file, its path relative to the root,
  in the order of the full paths.
\<close>

theorem project_structure_listing:
  assumes "fs (str_path (Path P)) = Inr node" "wf_root node"
  shows "\<exists>s es lines sec.
           analyze_project_structure fs P 3 = Inr (ProjectStructure s)
           \<and> mset es = mset (filter get_is_file (ps_files s))
           \<and> sorted (map fi_path es)
           \<and> list_all2 (\<lambda>l e. \<exists>r. relative_to (Path (fi_path e)) (Path (ps_root s)) = Inr r
                                    \<and> l = str_path r) lines es
           \<and> sec = (if length (ps_files s) \<le> 20
                     then ''## Project Structure'' @ nl @ nl @ ''```'' @ nl
                          @ concat (map (\<lambda>l. l @ nl) lines) @ ''```'' @ nl @ nl
                     else [])
           \<and> project_structure_section s = Inr sec
           \<and> generate_readme fs P n d =
               Inr (title_section P n @ description_section d
                    @ technologies_section (ps_languages s)
                    @ installation_section (ps_key_files s) @ usage_section @ sec
                    @ contributing_section @ license_section (ps_key_files s))"
proof -
  obtain s where s: "analyze_project_structure fs P 3 = Inr (ProjectStructure s)"
    and ok: "list_all (entry_ok (Path P) 3) (ps_files s)"
    using analyze_ok[of fs P node, OF assms] by blast
  have root: "Path (ps_root s) = Path P"
    using analyze_root[OF s] Path_str_path[OF normal_Path] by simp
  let ?sorted = "sort_key fi_path (ps_files s)"
  have "\<exists>r. relative_to (Path (fi_path e)) (Path (ps_root s)) = Inr r"
    if "e \<in> set ?sorted" for e
  proof -
    have "entry_ok (Path P) 3 e" using that ok by (simp add: list_all_iff)
    then show ?thesis using entry_ok_relative[OF normal_Path] root by fastforce
  qed
  then have "list_all (\<lambda>e. \<exists>r. relative_to (Path (fi_path e)) (Path (ps_root s)) = Inr r) ?sorted"
    by (simp add: list_all_iff)
  then obtain lines where
    l: "structure_lines (ps_root s) ?sorted = Inr (concat (map (\<lambda>l. l @ nl) lines))"
    and a: "list_all2 (\<lambda>l e. \<exists>r. relative_to (Path (fi_path e)) (Path (ps_root s)) = Inr r
                                \<and> l = str_path r) lines (filter get_is_file ?sorted)"
    using structure_lines_ok by blast
  let ?es = "filter get_is_file ?sorted"
  let ?sec = "if length (ps_files s) \<le> 20
              then ''## Project Structure'' @ nl @ nl @ ''```'' @ nl
                   @ concat (map (\<lambda>l. l @ nl) lines) @ ''```'' @ nl @ nl
              else []"
  have m: "mset ?es = mset (filter get_is_file (ps_files s))" by simp
  have so: "sorted (map fi_path ?es)" by (rule sorted_filter) simp
  have sec: "project_structure_section s = Inr ?sec"
    using l by (simp add: project_structure_section_def)
  have "generate_readme fs P n d =
               Inr (title_section P n @ description_section d
                    @ technologies_section (ps_languages s)
                    @ installation_section (ps_key_files s) @ usage_section @ ?sec
                    @ contributing_section @ license_section (ps_key_files s))"
    using generate_readme_success[OF s sec] .
  then show ?thesis using s m so a sec by blast
qed

theorem project_structure_listing_witness:
  "fs_fifo (str_path (Path ''proj''))
     = Inr (DirNode ''proj'' [FileNode ''pipe'' (Inr \<lparr>st_size = 0, st_isreg = False\<rparr>),
                              FileNode ''main.py'' (regular_file 7)])
   \<and> wf_root (DirNode ''proj'' [FileNode ''pipe'' (Inr \<lparr>st_size = 0, st_isreg = False\<rparr>),
                                FileNode ''main.py'' (regular_file 7)])
   \<and> (\<exists>s es lines sec.
           analyze_project_structure fs_fifo ''proj'' 3 = Inr (ProjectStructure s)
           \<and> mset es = mset (filter get_is_file (ps_files s))
           \<and> sorted (map fi_path es)
           \<and> list_all2 (\<lambda>l e. \<exists>r. relative_to (Path (fi_path e)) (Path (ps_root s)) = Inr r
                                    \<and> l = str_path r) lines es
           \<and> sec = (if length (ps_files s) \<le> 20
                     then ''## Project Structure'' @ nl @ nl @ ''```'' @ nl
                          @ concat (map (\<lambda>l. l @ nl) lines) @ ''```'' @ nl @ nl
                     else [])
           \<and> project_structure_section s = Inr sec
           \<and> generate_readme fs_fifo ''proj'' None None =
               Inr (title_section ''proj'' None @ description_section None
                    @ technologies_section (ps_languages s)
                    @ installation_section (ps_key_files s) @ usage_section @ sec
                    @ contributing_section @ license_section (ps_key_files s)))"
proof -
  let ?n = "DirNode ''proj'' [FileNode ''pipe'' (Inr \<lparr>st_size = 0, st_isreg = False\<rparr>),
                              FileNode ''main.py'' (regular_file 7)]"
  have h1: "fs_fifo (str_path (Path ''proj'')) = Inr ?n" by code_simp
  have h2: "wf_root ?n" by code_simp
  show ?thesis
    using h1 h2 project_structure_listing[of fs_fifo "''proj''" ?n None None, OF h1 h2]
    by blast
qed

text \<open>
  C6 as stated fails: \<open>files\<close> holds the named pipe \<open>proj/pipe\<close>, and the section
  lists \<open>main.py\<close> only.
\<close>

theorem project_structure_listing_counterexample:
  "map_sum id (map fi_path \<circ> ps_files_of) (analyze_project_structure fs_fifo ''proj'' 3)
     = Inr [''proj/pipe'', ''proj/main.py'']
   \<and> (case analyze_project_structure fs_fifo ''proj'' 3 of
         Inr (ProjectStructure s) \<Rightarrow> project_structure_section s
       | _ \<Rightarrow> Inr [])
     = Inr (''## Project Structure'' @ nl @ nl @ ''```'' @ nl @ ''main.py'' @ nl
            @ ''```'' @ nl @ nl)"
  by code_simp

end
